theory Spec2Isabelle
  imports Complex_Main
begin

section \<open>Python numbers\<close>

text \<open>
  The requirement calculation multiplies its arguments by the literals \<open>1.5\<close>, \<open>0.8\<close>,
  \<open>1.3\<close>, \<open>1.2\<close>, so it runs on Python floats (IEEE 754 binary64, round to nearest, ties
  to even). A finite binary64 value is kept as the rational number it denotes; a product is
  the exact rational product rounded back to binary64. The sign of a zero is not kept: the
  code only compares with \<open>0\<close>, multiplies and truncates, and none of these tells \<open>-0.0\<close>
  from \<open>0.0\<close>.
\<close>

datatype float64 = Finite rat | PosInf | NegInf | NaN

datatype number = PyInt int | PyFloat float64

datatype py_error = OverflowError | ValueError | KeyError | IndexError

text \<open>Number of binary digits of a natural number (Python's \<open>int.bit_length\<close>).\<close>

fun bit_length :: "nat \<Rightarrow> nat" where
  "bit_length n = (if n = 0 then 0 else Suc (bit_length (n div 2)))"

declare bit_length.simps [simp del]

text \<open>Nearest integer, a tie going to the even neighbour.\<close>

definition round_half_even :: "rat \<Rightarrow> int" where
  "round_half_even x =
     (let f = \<lfloor>x\<rfloor>; r = x - of_int f
      in if r < 1 / 2 then f
         else if 1 / 2 < r then f + 1
         else if even f then f else f + 1)"

text \<open>
  Rounding of a non-negative rational to the binary64 grid. Every finite binary64 value is
  an integer multiple of \<open>2 ^ -1074\<close>. With \<open>m = x * 2 ^ 1074\<close>, a value below
  \<open>2 ^ -1021\<close> (subnormal, or in the lowest binade) has at most 53 digits in \<open>\<lfloor>m\<rfloor>\<close> and is
  rounded to a multiple of \<open>2 ^ -1074\<close>; a larger one keeps its 53 leading digits, the
  \<open>s\<close> digits below them being rounded away.
\<close>

definition round_magnitude :: "rat \<Rightarrow> rat" where
  "round_magnitude x =
     (let m = x * 2 ^ 1074;
          s = bit_length (nat \<lfloor>m\<rfloor>) - 53
      in of_int (round_half_even (m / 2 ^ s)) * 2 ^ s / 2 ^ 1074)"

text \<open>Rounding to binary64: a result of magnitude \<open>2 ^ 1024\<close> or more overflows to an infinity.\<close>

definition round_double :: "rat \<Rightarrow> float64" where
  "round_double x =
     (let r = round_magnitude \<bar>x\<bar>
      in if 2 ^ 1024 \<le> r then (if x < 0 then NegInf else PosInf)
         else Finite (if x < 0 then - r else r))"

text \<open>
  A float literal of the source denotes the binary64 value nearest to its decimal:
  \<open>decimal m d\<close> is the literal written with the digits of \<open>m\<close>, the last \<open>d\<close> of them
  after the point, so that \<open>1.5\<close> is \<open>decimal 15 1\<close>.
\<close>

definition decimal :: "int \<Rightarrow> int \<Rightarrow> float64" where
  "decimal m d = round_double (of_int m / 10 ^ nat d)"

text \<open>Float multiplication \<open>a * b\<close>.\<close>

fun fmul :: "float64 \<Rightarrow> float64 \<Rightarrow> float64" where
  "fmul NaN _ = NaN"
| "fmul _ NaN = NaN"
| "fmul (Finite a) (Finite b) = round_double (a * b)"
| "fmul (Finite a) PosInf = (if a = 0 then NaN else if 0 < a then PosInf else NegInf)"
| "fmul (Finite a) NegInf = (if a = 0 then NaN else if 0 < a then NegInf else PosInf)"
| "fmul PosInf (Finite b) = (if b = 0 then NaN else if 0 < b then PosInf else NegInf)"
| "fmul NegInf (Finite b) = (if b = 0 then NaN else if 0 < b then NegInf else PosInf)"
| "fmul PosInf PosInf = PosInf"
| "fmul PosInf NegInf = NegInf"
| "fmul NegInf PosInf = NegInf"
| "fmul NegInf NegInf = PosInf"

text \<open>
  Conversion of an operand of a float operation: an \<open>int\<close> is rounded to binary64 and
  raises \<open>OverflowError\<close> when it is too large for one.
\<close>

fun to_float :: "number \<Rightarrow> py_error + float64" where
  "to_float (PyFloat f) = Inr f"
| "to_float (PyInt n) =
     (case round_double (of_int n) of Finite q \<Rightarrow> Inr (Finite q) | _ \<Rightarrow> Inl OverflowError)"

text \<open>\<open>x * c\<close> for a number \<open>x\<close> and a float \<open>c\<close>.\<close>

definition mul_float :: "number \<Rightarrow> float64 \<Rightarrow> py_error + float64" where
  "mul_float x c = (case to_float x of Inl e \<Rightarrow> Inl e | Inr f \<Rightarrow> Inr (fmul f c))"

text \<open>The comparison \<open>x > 0\<close>; it is false for a NaN.\<close>

fun gt_zero :: "number \<Rightarrow> bool" where
  "gt_zero (PyInt n) = (0 < n)"
| "gt_zero (PyFloat (Finite q)) = (0 < q)"
| "gt_zero (PyFloat PosInf) = True"
| "gt_zero (PyFloat NegInf) = False"
| "gt_zero (PyFloat NaN) = False"

text \<open>Truncation toward zero.\<close>

definition py_trunc :: "rat \<Rightarrow> int" where
  "py_trunc q = (if 0 \<le> q then \<lfloor>q\<rfloor> else \<lceil>q\<rceil>)"

text \<open>\<open>int(x)\<close> of a float: truncation, an error for an infinity or a NaN.\<close>

fun py_int :: "float64 \<Rightarrow> py_error + int" where
  "py_int (Finite q) = Inr (py_trunc q)"
| "py_int PosInf = Inl OverflowError"
| "py_int NegInf = Inl OverflowError"
| "py_int NaN = Inl ValueError"

section \<open>Requirement calculation\<close>

text \<open>\<open>complexity_map.get(complexity, 1.3)\<close>\<close>

definition complexity_map :: "string \<rightharpoonup> float64" where
  "complexity_map =
     [''low'' \<mapsto> decimal 10 1, ''medium'' \<mapsto> decimal 13 1, ''high'' \<mapsto> decimal 16 1]"

definition get_or :: "('k \<rightharpoonup> 'v) \<Rightarrow> 'k \<Rightarrow> 'v \<Rightarrow> 'v" where
  "get_or m k d = (case m k of None \<Rightarrow> d | Some v \<Rightarrow> v)"

definition calculate_resource_requirement :: "number \<Rightarrow> string \<Rightarrow> number \<Rightarrow> py_error + int" where
  "calculate_resource_requirement distance complexity duration =
     (let multiplier = get_or complexity_map complexity (decimal 13 1);
          base_requirement =
            (if gt_zero distance then mul_float distance (decimal 15 1)
             else if gt_zero duration then mul_float duration (decimal 8 1)
             else to_float (PyInt 30))
      in case base_requirement of
           Inl e \<Rightarrow> Inl e
         | Inr b \<Rightarrow> py_int (fmul (fmul b multiplier) (decimal 12 1)))"

section \<open>Resources\<close>

text \<open>A resource dictionary; its key \<open>id\<close> is the field \<open>resource_id\<close>.\<close>

record resource =
  resource_id :: string
  capacity :: int
  status :: string
  location :: string

text \<open>\<open>ResourceAPI.get_available_resources\<close>: three literal tables, chosen by the tag.\<close>

definition get_available_resources :: "string \<Rightarrow> resource list" where
  "get_available_resources resource_type =
     (if resource_type = ''drone'' then
        [\<lparr>resource_id = ''RESOURCE-001'', capacity = 95, status = ''available'', location = ''Base-A''\<rparr>,
         \<lparr>resource_id = ''RESOURCE-002'', capacity = 45, status = ''available'', location = ''Base-A''\<rparr>,
         \<lparr>resource_id = ''RESOURCE-003'', capacity = 85, status = ''charging'', location = ''Base-B''\<rparr>,
         \<lparr>resource_id = ''RESOURCE-004'', capacity = 100, status = ''available'', location = ''Base-A''\<rparr>]
      else if resource_type = ''vehicle'' then
        [\<lparr>resource_id = ''VEHICLE-001'', capacity = 80, status = ''available'', location = ''Warehouse-1''\<rparr>,
         \<lparr>resource_id = ''VEHICLE-002'', capacity = 60, status = ''available'', location = ''Warehouse-2''\<rparr>,
         \<lparr>resource_id = ''VEHICLE-003'', capacity = 90, status = ''available'', location = ''Warehouse-1''\<rparr>]
      else
        [\<lparr>resource_id = ''UNIT-001'', capacity = 75, status = ''available'', location = ''Station-A''\<rparr>,
         \<lparr>resource_id = ''UNIT-002'', capacity = 95, status = ''available'', location = ''Station-B''\<rparr>])"

section \<open>The world outside the agent: random source and clock\<close>

text \<open>
  The random source is an arbitrary sequence of natural numbers, read one after the other;
  \<open>random.randint\<close> and \<open>random.choice\<close> reduce the next one into their range, so
  that every outcome of either call is the image of some sequence. The clock is the
  sequence of formatted readings of \<open>datetime.now()\<close>. Output written by \<open>print\<close> is
  not part of the model.
\<close>

record world =
  random_source :: "nat \<Rightarrow> nat"
  drawn :: nat
  clock :: "nat \<Rightarrow> string"
  clock_reads :: nat

definition randint :: "int \<Rightarrow> int \<Rightarrow> world \<Rightarrow> int \<times> world" where
  "randint a b w =
     (a + int (random_source w (drawn w) mod nat (b - a + 1)), w\<lparr>drawn := drawn w + 1\<rparr>)"

text \<open>\<open>random.choice\<close>, here only ever called on a literal, non-empty list.\<close>

definition choice :: "'a list \<Rightarrow> world \<Rightarrow> 'a \<times> world" where
  "choice xs w = (xs ! (random_source w (drawn w) mod length xs), w\<lparr>drawn := drawn w + 1\<rparr>)"

section \<open>Formatted text and the decision log\<close>

text \<open>
  A formatted string literal is kept as the sequence of its literal pieces and of the values
  interpolated between them; how a value is rendered as characters is not modelled.
\<close>

datatype detail = DStr string | DInt int

datatype piece =
    Lit string
  | IntVal int
  | NumVal number
  | DetailVal detail
  | DictVal "(string \<times> detail) list"

type_synonym message = "piece list"

record log_entry =
  timestamp :: string
  step :: string
  decision :: message
  reasoning :: message

text \<open>
  The agent object. Its two API members are stateless and are called directly. The
  constructor is the only place where \<open>decision_log\<close> is assigned.
\<close>

record agent =
  industry :: string
  decision_log :: "log_entry list"

definition init :: "string \<Rightarrow> agent" where
  "init ind = \<lparr>industry = ind, decision_log = []\<rparr>"

definition log_decision :: "agent \<Rightarrow> world \<Rightarrow> string \<Rightarrow> message \<Rightarrow> message \<Rightarrow> agent \<times> world" where
  "log_decision a w s d r =
     (let entry = \<lparr>timestamp = clock w (clock_reads w), step = s, decision = d, reasoning = r\<rparr>
      in (a\<lparr>decision_log := decision_log a @ [entry]\<rparr>, w\<lparr>clock_reads := clock_reads w + 1\<rparr>))"

section \<open>Environment check\<close>

text \<open>A reading; its key \<open>type\<close> is the field \<open>kind\<close>.\<close>

record conditions =
  kind :: string
  safe :: bool
  details :: "(string \<times> detail) list"

text \<open>
  \<open>EnvironmentAPI.check_conditions\<close>. The dictionary display is evaluated whole, so all
  nine draws are made, in the order of the source, whatever the task type is. The default
  of the final \<open>get\<close> is the entry of \<open>drone_mission\<close>.
\<close>

definition check_conditions :: "string \<Rightarrow> string \<Rightarrow> world \<Rightarrow> conditions \<times> world" where
  "check_conditions loc task_type w =
     (let (weather_safe, w1) = choice [True, True, True, False] w;
          (condition, w2) = choice [''Clear'', ''Cloudy'', ''Windy''] w1;
          (wind_speed, w3) = randint 5 35 w2;
          (visibility, w4) = randint 5 15 w3;
          (traffic_safe, w5) = choice [True, True, False] w4;
          (traffic_level, w6) = choice [''Low'', ''Moderate'', ''Heavy''] w5;
          (estimated_delay_min, w7) = randint 0 45 w6;
          (road_status, w8) = choice [''Clear'', ''Construction''] w7;
          (temperature, w9) = randint 20 25 w8;
          drone_mission =
            \<lparr>kind = ''weather'', safe = weather_safe,
             details = [(''condition'', DStr condition), (''wind_speed'', DInt wind_speed),
                        (''visibility'', DInt visibility)]\<rparr>;
          delivery_route =
            \<lparr>kind = ''traffic'', safe = traffic_safe,
             details = [(''traffic_level'', DStr traffic_level),
                        (''estimated_delay_min'', DInt estimated_delay_min),
                        (''road_status'', DStr road_status)]\<rparr>;
          production_job =
            \<lparr>kind = ''facility'', safe = True,
             details = [(''machine_status'', DStr ''Operational''), (''temperature'', DInt temperature),
                        (''power_status'', DStr ''Stable'')]\<rparr>;
          conditions_map =
            [''drone_mission'' \<mapsto> drone_mission, ''delivery_route'' \<mapsto> delivery_route,
             ''production_job'' \<mapsto> production_job]
      in (get_or conditions_map task_type drone_mission, w9))"

text \<open>Subscription \<open>d[key]\<close> of a details dictionary.\<close>

definition subscript :: "(string \<times> detail) list \<Rightarrow> string \<Rightarrow> py_error + detail" where
  "subscript d k = (case map_of d k of None \<Rightarrow> Inl KeyError | Some v \<Rightarrow> Inr v)"

definition check_environment_safety ::
    "string \<Rightarrow> string \<Rightarrow> world \<Rightarrow> py_error + ((bool \<times> message) \<times> world)" where
  "check_environment_safety loc task_type w =
     (let (conds, w1) = check_conditions loc task_type w
      in if \<not> safe conds then
           if kind conds = ''weather'' then
             (case subscript (details conds) ''wind_speed'' of
                Inl e \<Rightarrow> Inl e
              | Inr v \<Rightarrow> Inr ((False, [Lit ''Unsafe weather: Wind '', DetailVal v, Lit '' km/h'']), w1))
           else if kind conds = ''traffic'' then
             (case subscript (details conds) ''estimated_delay_min'' of
                Inl e \<Rightarrow> Inl e
              | Inr v \<Rightarrow> Inr ((False, [Lit ''Heavy traffic: '', DetailVal v, Lit '' min delay'']), w1))
           else Inr ((False, [Lit ''Conditions not favorable: '', DictVal (details conds)]), w1)
         else Inr ((True, [Lit ''Conditions favorable for task execution'']), w1))"

section \<open>Resource selection\<close>

text \<open>
  \<open>max(available, key=...)\<close> on a non-empty list: the running maximum is replaced only by
  an item whose key is strictly greater. The evaluation always passes the required capacity,
  so the default of \<open>min_capacity\<close> is not modelled.
\<close>

fun max_loop :: "('a \<Rightarrow> int) \<Rightarrow> 'a \<Rightarrow> 'a list \<Rightarrow> 'a" where
  "max_loop key best [] = best"
| "max_loop key best (x # xs) = max_loop key (if key best < key x then x else best) xs"

definition select_optimal_resource ::
    "agent \<Rightarrow> world \<Rightarrow> string \<Rightarrow> int \<Rightarrow> resource option \<times> agent \<times> world" where
  "select_optimal_resource a w resource_type min_capacity =
     (let resources = get_available_resources resource_type;
          available = filter (\<lambda>r. status r = ''available'' \<and> min_capacity \<le> capacity r) resources
      in case available of
           [] \<Rightarrow>
             (let (a1, w1) = log_decision a w ''Resource Selection'' [Lit ''FAILED'']
                    [Lit ''No '', Lit resource_type, Lit '' available with capacity >= '',
                     IntVal min_capacity, Lit ''%'']
              in (None, a1, w1))
         | first # others \<Rightarrow>
             (let best_resource = max_loop capacity first others;
                  (a1, w1) = log_decision a w ''Resource Selection''
                    [Lit ''Selected '', Lit (resource_id best_resource)]
                    [Lit ''Capacity: '', IntVal (capacity best_resource), Lit ''%, Status: '',
                     Lit (status best_resource)]
              in (Some best_resource, a1, w1)))"


section \<open>Execution planning\<close>

record plan_step =
  step_index :: int
  action :: message
  estimated_time_min :: int

text \<open>The loop \<open>for i in range(num_steps)\<close>, one draw per step, each step appended.\<close>

fun step_loop :: "nat list \<Rightarrow> plan_step list \<Rightarrow> world \<Rightarrow> plan_step list \<times> world" where
  "step_loop [] steps w = (steps, w)"
| "step_loop (i # rest) steps w =
     (let (t, w1) = randint 5 20 w
      in step_loop rest
           (steps @ [\<lparr>step_index = int i + 1,
                      action = [Lit ''Execute phase '', IntVal (int i + 1)],
                      estimated_time_min = t\<rparr>])
           w1)"

record plan =
  plan_start :: string
  plan_end :: string
  total_steps :: int
  estimated_duration_min :: int
  steps :: "plan_step list"
  contingency_plan :: string

text \<open>
  A task request is a dictionary read only through \<open>get\<close> with a default: each key is a
  field that may be absent.
\<close>

record task_request =
  req_task_type :: "string option"
  req_resource_type :: "string option"
  req_location :: "string option"
  req_distance :: "number option"
  req_complexity :: "string option"
  req_duration :: "number option"
  req_start_location :: "string option"
  req_end_location :: "string option"

definition get_default :: "'a option \<Rightarrow> 'a \<Rightarrow> 'a" where
  "get_default field d = (case field of None \<Rightarrow> d | Some v \<Rightarrow> v)"

definition plan_execution_path :: "task_request \<Rightarrow> world \<Rightarrow> plan \<times> world" where
  "plan_execution_path task_details w =
     (let start = get_default (req_start_location task_details) ''Base'';
          end_loc = get_default (req_end_location task_details) ''Target'';
          (num_steps, w1) = randint 3 7 w;
          (steps_made, w2) = step_loop [0 ..< nat num_steps] [] w1;
          total_time = sum_list (map estimated_time_min steps_made)
      in (\<lparr>plan_start = start, plan_end = end_loc, total_steps = num_steps,
           estimated_duration_min = total_time, steps = steps_made,
           contingency_plan = ''Return to base if issues arise''\<rparr>, w2))"

section \<open>Orchestration\<close>

text \<open>
  The two shapes of the returned dictionary: \<open>task_approved\<close> is \<open>False\<close> with a reason,
  or \<open>True\<close> with the assignment and the plan. Both carry the agent's decision log.
\<close>

datatype outcome =
    Rejected (reason: message) (rejected_log: "log_entry list")
  | Approved (resource_assigned: string) (resource_capacity: message) (execution_plan: plan)
      (conditions_status: message) (estimated_completion: message)
      (approved_log: "log_entry list") (safety_checks: "(string \<times> string) list")

fun task_approved :: "outcome \<Rightarrow> bool" where
  "task_approved (Rejected _ _) = False"
| "task_approved (Approved _ _ _ _ _ _ _) = True"

fun returned_log :: "outcome \<Rightarrow> log_entry list" where
  "returned_log (Rejected _ l) = l"
| "returned_log (Approved _ _ _ _ _ l _) = l"

definition make_autonomous_decision ::
    "agent \<Rightarrow> world \<Rightarrow> task_request \<Rightarrow> py_error + (outcome \<times> agent \<times> world)" where
  "make_autonomous_decision a w task_request =
     (let task_type = get_default (req_task_type task_request) ''drone_mission'';
          resource_type = get_default (req_resource_type task_request) ''drone''
      in case check_environment_safety (get_default (req_location task_request) ''Unknown'')
                task_type w of
           Inl e \<Rightarrow> Inl e
         | Inr ((is_safe, why), w1) \<Rightarrow>
             if \<not> is_safe then
               (let (a1, w2) = log_decision a w1 ''Environment Analysis'' [Lit ''TASK REJECTED''] why
                in Inr (Rejected why (decision_log a1), a1, w2))
             else
               (let (a1, w2) =
                      log_decision a w1 ''Environment Analysis'' [Lit ''CONDITIONS APPROVED''] why;
                    distance = get_default (req_distance task_request) (PyInt 0);
                    complexity = get_default (req_complexity task_request) ''medium'';
                    duration = get_default (req_duration task_request) (PyInt 0)
                in case calculate_resource_requirement distance complexity duration of
                     Inl e \<Rightarrow> Inl e
                   | Inr required_capacity \<Rightarrow>
                       (let (a2, w3) =
                              log_decision a1 w2 ''Requirement Analysis''
                                [Lit ''Required Capacity: '', IntVal required_capacity, Lit ''%'']
                                [Lit ''Distance: '', NumVal distance, Lit '', Complexity: '',
                                 Lit complexity];
                            (selected_resource, a3, w4) =
                              select_optimal_resource a2 w3 resource_type required_capacity
                        in case selected_resource of
                             None \<Rightarrow>
                               Inr (Rejected
                                      [Lit ''No '', Lit resource_type,
                                       Lit '' available with required capacity ('',
                                       IntVal required_capacity, Lit ''%)'']
                                      (decision_log a3), a3, w4)
                           | Some chosen \<Rightarrow>
                               (let (planned, w5) = plan_execution_path task_request w4;
                                    (a4, w6) =
                                      log_decision a3 w5 ''Final Decision'' [Lit ''TASK APPROVED'']
                                        [Lit ''All checks passed. '', Lit (resource_id chosen),
                                         Lit '' ready for deployment.'']
                                in Inr (Approved (resource_id chosen)
                                          [IntVal (capacity chosen), Lit ''% (required: '',
                                           IntVal required_capacity, Lit ''%)'']
                                          planned why
                                          [IntVal (estimated_duration_min planned), Lit '' minutes'']
                                          (decision_log a4)
                                          [(''environment'', ''PASS''), (''resource_capacity'', ''PASS''),
                                           (''availability'', ''PASS'')],
                                        a4, w6)))))"

section \<open>The form variant\<close>

text \<open>
  Step 2 of the form's run (\<open>app.py\<close>). \<open>distance\<close> is the integer of the slider,
  \<open>complexity\<close> the chosen label; the factor is looked up under the first word of the label,
  by subscription. The log entry shows \<open>round(total)\<close>, rounded half to even.
\<close>

text \<open>
  The ASCII characters at which \<open>str.split()\<close> splits. Strings are byte strings here, so
  the white space beyond ASCII is not covered; the labels of the form contain none.
\<close>

definition whitespace :: "char \<Rightarrow> bool" where
  "whitespace c \<longleftrightarrow>
     c \<in> set [CHR '' '', CHR 0x09, CHR 0x0A, CHR 0x0B, CHR 0x0C, CHR 0x0D,
              CHR 0x1C, CHR 0x1D, CHR 0x1E, CHR 0x1F]"

definition first_word :: "string \<Rightarrow> py_error + string" where
  "first_word s =
     (case takeWhile (\<lambda>c. \<not> whitespace c) (dropWhile whitespace s) of
        [] \<Rightarrow> Inl IndexError
      | c # cs \<Rightarrow> Inr (c # cs))"

definition ui_complexity_factor :: "string \<Rightarrow> py_error + float64" where
  "ui_complexity_factor complexity =
     (case first_word complexity of
        Inl e \<Rightarrow> Inl e
      | Inr k \<Rightarrow>
          (case [''Low'' \<mapsto> decimal 10 1, ''Medium'' \<mapsto> decimal 13 1,
                 ''High'' \<mapsto> decimal 16 1] k of
             None \<Rightarrow> Inl KeyError
           | Some f \<Rightarrow> Inr f))"

definition ui_total :: "int \<Rightarrow> string \<Rightarrow> py_error + float64" where
  "ui_total distance complexity =
     (case ui_complexity_factor complexity of
        Inl e \<Rightarrow> Inl e
      | Inr complexity_factor \<Rightarrow>
          (case mul_float (PyInt distance) (decimal 15 1) of
             Inl e \<Rightarrow> Inl e
           | Inr b \<Rightarrow> Inr (fmul b complexity_factor)))"

fun py_round :: "float64 \<Rightarrow> py_error + int" where
  "py_round (Finite q) = Inr (round_half_even q)"
| "py_round PosInf = Inl OverflowError"
| "py_round NegInf = Inl OverflowError"
| "py_round NaN = Inl ValueError"

definition ui_total_load :: "int \<Rightarrow> string \<Rightarrow> py_error + int" where
  "ui_total_load distance complexity =
     (case ui_total distance complexity of Inl e \<Rightarrow> Inl e | Inr t \<Rightarrow> py_round t)"


section \<open>Auxiliary notions for the rounding proofs\<close>

text \<open>The scaled value and the number of digits rounded away, as \<open>round_magnitude\<close> computes them.\<close>

definition scaled :: "rat \<Rightarrow> rat" where
  "scaled x = x * 2 ^ 1074"

definition shift :: "rat \<Rightarrow> nat" where
  "shift x = bit_length (nat \<lfloor>scaled x\<rfloor>) - 53"

section \<open>The requirement rule, as the specification words it\<close>

text \<open>
  The multiplier is 1.0 for \<open>low\<close>, 1.3 for \<open>medium\<close>, 1.6 for \<open>high\<close> and 1.3 for any
  other tier; the base is distance times 1.5 when the distance is positive, else duration
  times 0.8 when the duration is positive, else 30.
\<close>

definition spec_multiplier :: "string \<Rightarrow> float64" where
  "spec_multiplier tier =
     (if tier = ''low'' then decimal 10 1
      else if tier = ''medium'' then decimal 13 1
      else if tier = ''high'' then decimal 16 1
      else decimal 13 1)"

definition spec_base :: "number \<Rightarrow> number \<Rightarrow> py_error + float64" where
  "spec_base d t =
     (if gt_zero d then mul_float d (decimal 15 1)
      else if gt_zero t then mul_float t (decimal 8 1)
      else Inr (Finite 30))"

text \<open>
  The value of a finite number, and the numbers Python can hold: any \<open>int\<close>, and the floats
  that are binary64 values.
\<close>

fun number_value :: "number \<Rightarrow> rat option" where
  "number_value (PyInt n) = Some (of_int n)"
| "number_value (PyFloat (Finite q)) = Some q"
| "number_value (PyFloat PosInf) = None"
| "number_value (PyFloat NegInf) = None"
| "number_value (PyFloat NaN) = None"

definition binary64 :: "rat \<Rightarrow> bool" where
  "binary64 q \<longleftrightarrow> round_double q = Finite q"

fun genuine :: "number \<Rightarrow> bool" where
  "genuine (PyInt n) = True"
| "genuine (PyFloat (Finite q)) = binary64 q"
| "genuine (PyFloat PosInf) = True"
| "genuine (PyFloat NegInf) = True"
| "genuine (PyFloat NaN) = True"

text \<open>The three roundings of the distance branch, on the exact values.\<close>

definition chain :: "rat \<Rightarrow> rat \<Rightarrow> rat \<Rightarrow> rat" where
  "chain f c m =
     round_magnitude (round_magnitude (round_magnitude (f * c) * m)
       * (5404319552844595 / 4503599627370496))"

section \<open>Sample inputs\<close>

text \<open>
  A world whose random source always yields \<open>k\<close> and whose clock stands still, and the
  production request of the console demonstration.
\<close>

definition constant_world :: "nat \<Rightarrow> world" where
  "constant_world k =
     \<lparr>random_source = (\<lambda>_. k), drawn = 0, clock = (\<lambda>_. ''2025-01-01 00:00:00''),
      clock_reads = 0\<rparr>"

definition production_task :: task_request where
  "production_task =
     \<lparr>req_task_type = Some ''production_job'', req_resource_type = Some ''machine'',
      req_location = Some ''Factory Floor A'', req_distance = None,
      req_complexity = Some ''low'', req_duration = Some (PyInt 45),
      req_start_location = Some ''Station-A'', req_end_location = Some ''Station-B''\<rparr>"

definition drone_task :: task_request where
  "drone_task =
     \<lparr>req_task_type = Some ''drone_mission'', req_resource_type = Some ''drone'',
      req_location = Some ''Solar Farm Alpha'', req_distance = Some (PyInt 25),
      req_complexity = Some ''medium'', req_duration = None,
      req_start_location = Some ''Base-A'', req_end_location = Some ''Solar Farm Alpha''\<rparr>"

text \<open>The entry that resource selection appends to the log.\<close>

definition selection_entry :: "agent \<Rightarrow> world \<Rightarrow> string \<Rightarrow> int \<Rightarrow> log_entry" where
  "selection_entry a w resource_type min_capacity =
     last (decision_log (fst (snd (select_optimal_resource a w resource_type min_capacity))))"

text \<open>Two successive evaluations on the same agent object, and the two logs they return.\<close>

definition logs_of_two_runs ::
    "agent \<Rightarrow> world \<Rightarrow> task_request \<Rightarrow> task_request
      \<Rightarrow> py_error + (log_entry list \<times> log_entry list)" where
  "logs_of_two_runs a w first_task second_task =
     (case make_autonomous_decision a w first_task of
        Inl e \<Rightarrow> Inl e
      | Inr (first_outcome, a1, w1) \<Rightarrow>
          (case make_autonomous_decision a1 w1 second_task of
             Inl e \<Rightarrow> Inl e
           | Inr (second_outcome, a2, w2) \<Rightarrow>
               Inr (returned_log first_outcome, returned_log second_outcome)))"

text \<open>The entries the two sample requests produce in \<open>constant_world 0\<close>.\<close>

definition production_entries :: "log_entry list" where
  "production_entries =
     [\<lparr>timestamp = ''2025-01-01 00:00:00'', step = ''Environment Analysis'',
       decision = [Lit ''CONDITIONS APPROVED''],
       reasoning = [Lit ''Conditions favorable for task execution'']\<rparr>,
      \<lparr>timestamp = ''2025-01-01 00:00:00'', step = ''Requirement Analysis'',
       decision = [Lit ''Required Capacity: '', IntVal 43, Lit ''%''],
       reasoning = [Lit ''Distance: '', NumVal (PyInt 0), Lit '', Complexity: '', Lit ''low'']\<rparr>,
      \<lparr>timestamp = ''2025-01-01 00:00:00'', step = ''Resource Selection'',
       decision = [Lit ''Selected '', Lit ''UNIT-002''],
       reasoning = [Lit ''Capacity: '', IntVal 95, Lit ''%, Status: '', Lit ''available'']\<rparr>,
      \<lparr>timestamp = ''2025-01-01 00:00:00'', step = ''Final Decision'',
       decision = [Lit ''TASK APPROVED''],
       reasoning = [Lit ''All checks passed. '', Lit ''UNIT-002'', Lit '' ready for deployment.'']\<rparr>]"

definition drone_entries :: "log_entry list" where
  "drone_entries =
     [\<lparr>timestamp = ''2025-01-01 00:00:00'', step = ''Environment Analysis'',
       decision = [Lit ''CONDITIONS APPROVED''],
       reasoning = [Lit ''Conditions favorable for task execution'']\<rparr>,
      \<lparr>timestamp = ''2025-01-01 00:00:00'', step = ''Requirement Analysis'',
       decision = [Lit ''Required Capacity: '', IntVal 58, Lit ''%''],
       reasoning = [Lit ''Distance: '', NumVal (PyInt 25), Lit '', Complexity: '', Lit ''medium'']\<rparr>,
      \<lparr>timestamp = ''2025-01-01 00:00:00'', step = ''Resource Selection'',
       decision = [Lit ''Selected '', Lit ''RESOURCE-004''],
       reasoning = [Lit ''Capacity: '', IntVal 100, Lit ''%, Status: '', Lit ''available'']\<rparr>,
      \<lparr>timestamp = ''2025-01-01 00:00:00'', step = ''Final Decision'',
       decision = [Lit ''TASK APPROVED''],
       reasoning = [Lit ''All checks passed. '', Lit ''RESOURCE-004'', Lit '' ready for deployment.'']\<rparr>]"

section \<open>Properties of binary64 rounding\<close>

lemma bit_length_0 [simp]: "bit_length 0 = 0"
  by (simp add: bit_length.simps)

lemma bit_length_pos: "0 < n \<Longrightarrow> bit_length n = Suc (bit_length (n div 2))"
  by (subst bit_length.simps) simp

lemma bit_length_bounds:
  "0 < n \<Longrightarrow> 2 ^ (bit_length n - 1) \<le> n \<and> n < 2 ^ bit_length n"
proof (induction n rule: bit_length.induct)
  case (1 n)
  show ?case
  proof (cases "n div 2 = 0")
    case True
    with "1.prems" have "n = 1" by presburger
    then show ?thesis by (simp add: bit_length_pos)
  next
    case False
    then have pos: "0 < n div 2" by simp
    from "1.IH" "1.prems" pos
    have ih: "2 ^ (bit_length (n div 2) - 1) \<le> n div 2" "n div 2 < 2 ^ bit_length (n div 2)"
      by auto
    have bl: "bit_length n = Suc (bit_length (n div 2))"
      using "1.prems" by (rule bit_length_pos)
    have bpos: "0 < bit_length (n div 2)"
      using pos by (simp add: bit_length_pos)
    then have e: "2 ^ (bit_length n - 1) = (2::nat) * 2 ^ (bit_length (n div 2) - 1)"
      using bl by (cases "bit_length (n div 2)") auto
    have "2 * 2 ^ (bit_length (n div 2) - 1) \<le> 2 * (n div 2)"
      using ih(1) by simp
    also have "\<dots> \<le> n" by presburger
    finally have low: "2 ^ (bit_length n - 1) \<le> n" using e by simp
    have "n < 2 * (n div 2) + 2" by presburger
    also have "\<dots> \<le> 2 * 2 ^ bit_length (n div 2)" using ih(2) by simp
    finally have "n < 2 ^ bit_length n" using bl by simp
    with low show ?thesis by simp
  qed
qed

lemma bit_length_eq:
  assumes "2 ^ k \<le> n" "n < 2 ^ Suc k"
  shows "bit_length n = Suc k"
proof -
  have pos: "0 < n" using assms(1) by (metis gr0I not_le zero_less_numeral zero_less_power)
  from bit_length_bounds [OF pos]
  have b: "2 ^ (bit_length n - 1) \<le> n" "n < 2 ^ bit_length n" by auto
  have "(2::nat) ^ k < 2 ^ bit_length n" using assms(1) b(2) by linarith
  then have 1: "k < bit_length n" by (rule power_less_imp_less_exp [rotated]) simp
  have "(2::nat) ^ (bit_length n - 1) < 2 ^ Suc k" using assms(2) b(1) by linarith
  then have 2: "bit_length n - 1 < Suc k" by (rule power_less_imp_less_exp [rotated]) simp
  from 1 2 show ?thesis by linarith
qed

lemma bit_length_mono: "m \<le> n \<Longrightarrow> bit_length m \<le> bit_length n"
proof (cases "m = 0")
  case True
  then show ?thesis by simp
next
  case False
  assume le: "m \<le> n"
  from False have pm: "0 < m" by simp
  with le have pn: "0 < n" by simp
  from bit_length_bounds [OF pm] bit_length_bounds [OF pn]
  have "2 ^ (bit_length m - 1) \<le> m" "n < 2 ^ bit_length n" by auto
  with le have "(2::nat) ^ (bit_length m - 1) < 2 ^ bit_length n" by linarith
  then have "bit_length m - 1 < bit_length n" by (rule power_less_imp_less_exp [rotated]) simp
  then show ?thesis by linarith
qed

lemma round_half_even_of_int [simp]: "round_half_even (of_int n) = n"
  by (simp add: round_half_even_def)

lemma round_half_even_ge: "of_int n \<le> x \<Longrightarrow> n \<le> round_half_even x"
  unfolding round_half_even_def Let_def
  by (auto simp: le_floor_iff; linarith)

lemma round_half_even_le: "x \<le> of_int n \<Longrightarrow> round_half_even x \<le> n"
  unfolding round_half_even_def Let_def
  by (auto simp: floor_le_iff floor_less_iff; linarith)


lemma round_half_even_mono:
  assumes "x \<le> y"
  shows "round_half_even x \<le> round_half_even y"
proof (cases "\<lfloor>x\<rfloor> = \<lfloor>y\<rfloor>")
  case True
  with assms show ?thesis
    unfolding round_half_even_def Let_def by (auto; linarith)
next
  case False
  with assms have "\<lfloor>x\<rfloor> < \<lfloor>y\<rfloor>"
    by (simp add: floor_mono order.strict_iff_order)
  then have "\<lfloor>x\<rfloor> + 1 \<le> \<lfloor>y\<rfloor>" by simp
  moreover have "round_half_even x \<le> \<lfloor>x\<rfloor> + 1"
    unfolding round_half_even_def Let_def by auto
  moreover have "\<lfloor>y\<rfloor> \<le> round_half_even y"
    unfolding round_half_even_def Let_def by auto
  ultimately show ?thesis by linarith
qed

lemma round_magnitude_alt:
  "round_magnitude x = of_int (round_half_even (scaled x / 2 ^ shift x)) * 2 ^ shift x / 2 ^ 1074"
  by (simp add: round_magnitude_def scaled_def shift_def Let_def)

lemma scaled_less_power:
  assumes "0 \<le> x"
  shows "scaled x < 2 ^ max 1 (bit_length (nat \<lfloor>scaled x\<rfloor>))"
proof -
  let ?m = "scaled x"
  let ?n = "nat \<lfloor>?m\<rfloor>"
  have m0: "0 \<le> ?m" using assms by (simp add: scaled_def)
  show ?thesis
  proof (cases "?n = 0")
    case True
    then have "\<lfloor>?m\<rfloor> \<le> 0" by simp
    then have "?m < 1" by (simp add: floor_le_iff)
    also have "(1::rat) < 2 ^ max 1 (bit_length ?n)"
      by (rule one_less_power) auto
    finally show ?thesis .
  next
    case False
    then have pos: "0 < ?n" by simp
    from bit_length_bounds [OF pos] have "?n < 2 ^ bit_length ?n" by simp
    then have "int ?n < 2 ^ bit_length ?n"
      by (metis of_nat_less_iff of_nat_numeral of_nat_power)
    then have "\<lfloor>?m\<rfloor> < 2 ^ bit_length ?n" using m0 by simp
    then have "?m < of_int (2 ^ bit_length ?n)" by (simp only: floor_less_iff)
    then have "?m < 2 ^ bit_length ?n" by simp
    also have "(2::rat) ^ bit_length ?n \<le> 2 ^ max 1 (bit_length ?n)"
      by (rule power_increasing) auto
    finally show ?thesis .
  qed
qed

lemma scaled_ge_power:
  assumes "0 \<le> x" "0 < bit_length (nat \<lfloor>scaled x\<rfloor>)"
  shows "2 ^ (bit_length (nat \<lfloor>scaled x\<rfloor>) - 1) \<le> scaled x"
proof -
  let ?m = "scaled x"
  let ?n = "nat \<lfloor>?m\<rfloor>"
  have pos: "0 < ?n" using assms(2) by (cases "?n = 0") auto
  from bit_length_bounds [OF pos] have "2 ^ (bit_length ?n - 1) \<le> ?n" by simp
  then have "(2::int) ^ (bit_length ?n - 1) \<le> int ?n"
    by (metis of_nat_le_iff of_nat_numeral of_nat_power)
  also have "int ?n \<le> \<lfloor>?m\<rfloor>" using assms(1) by (simp add: scaled_def)
  finally have "of_int (2 ^ (bit_length ?n - 1)) \<le> ?m" by (simp only: le_floor_iff)
  then show ?thesis by simp
qed

lemma quotient_upper:
  assumes "0 \<le> x"
  shows "scaled x / 2 ^ shift x < 2 ^ 53"
proof -
  let ?b = "bit_length (nat \<lfloor>scaled x\<rfloor>)"
  have "scaled x < 2 ^ max 1 ?b" using assms by (rule scaled_less_power)
  also have "(2::rat) ^ max 1 ?b \<le> 2 ^ (53 + shift x)"
    by (rule power_increasing) (auto simp: shift_def)
  finally have "scaled x < 2 ^ 53 * 2 ^ shift x" by (simp add: power_add)
  then show ?thesis by (simp add: pos_divide_less_eq)
qed

lemma quotient_lower:
  assumes "0 \<le> x" "0 < shift x"
  shows "2 ^ 52 \<le> scaled x / 2 ^ shift x"
proof -
  let ?b = "bit_length (nat \<lfloor>scaled x\<rfloor>)"
  have b: "?b = 53 + shift x" using assms(2) by (simp add: shift_def)
  then have "0 < ?b" by simp
  with assms(1) have "2 ^ (?b - 1) \<le> scaled x" by (rule scaled_ge_power)
  moreover have "?b - 1 = 52 + shift x" using b by simp
  ultimately have "2 ^ 52 * 2 ^ shift x \<le> scaled x" by (simp add: power_add)
  then show ?thesis by (simp add: pos_le_divide_eq)
qed

lemma shift_mono:
  assumes "x \<le> y"
  shows "shift x \<le> shift y"
proof -
  have "scaled x \<le> scaled y" using assms by (simp add: scaled_def)
  then have "nat \<lfloor>scaled x\<rfloor> \<le> nat \<lfloor>scaled y\<rfloor>" by (simp add: floor_mono nat_mono)
  then have "bit_length (nat \<lfloor>scaled x\<rfloor>) \<le> bit_length (nat \<lfloor>scaled y\<rfloor>)"
    by (rule bit_length_mono)
  then show ?thesis by (simp add: shift_def)
qed

lemma mantissa_upper:
  assumes "0 \<le> x"
  shows "round_half_even (scaled x / 2 ^ shift x) \<le> 2 ^ 53"
proof -
  have "scaled x / 2 ^ shift x \<le> of_int (2 ^ 53)"
    using quotient_upper [OF assms] by simp
  then show ?thesis by (rule round_half_even_le)
qed

lemma mantissa_lower:
  assumes "0 \<le> x" "0 < shift x"
  shows "2 ^ 52 \<le> round_half_even (scaled x / 2 ^ shift x)"
proof -
  have "of_int (2 ^ 52) \<le> scaled x / 2 ^ shift x"
    using quotient_lower [OF assms] by simp
  then show ?thesis by (rule round_half_even_ge)
qed

lemma mantissa_nonneg:
  assumes "0 \<le> x"
  shows "0 \<le> round_half_even (scaled x / 2 ^ shift x)"
proof -
  have "of_int 0 \<le> scaled x / 2 ^ shift x" using assms by (simp add: scaled_def)
  then show ?thesis by (rule round_half_even_ge)
qed

lemma round_magnitude_nonneg: "0 \<le> x \<Longrightarrow> 0 \<le> round_magnitude x"
  using mantissa_nonneg [of x] by (simp add: round_magnitude_alt)

lemma round_magnitude_mono:
  assumes "0 \<le> x" "x \<le> y"
  shows "round_magnitude x \<le> round_magnitude y"
proof -
  have y0: "0 \<le> y" using assms by simp
  let ?mx = "round_half_even (scaled x / 2 ^ shift x)"
  let ?my = "round_half_even (scaled y / 2 ^ shift y)"
  have "(of_int ?mx :: rat) * 2 ^ shift x \<le> of_int ?my * 2 ^ shift y"
  proof (cases "shift x = shift y")
    case True
    have "scaled x / 2 ^ shift y \<le> scaled y / 2 ^ shift y"
      using assms(2) by (simp add: scaled_def divide_right_mono)
    then have "?mx \<le> ?my" unfolding True by (rule round_half_even_mono)
    then show ?thesis by (simp add: True)
  next
    case False
    with shift_mono [OF assms(2)] have lt: "shift x < shift y" by simp
    then have sy: "0 < shift y" by simp
    have "(of_int ?mx :: rat) \<le> of_int (2 ^ 53)"
      using mantissa_upper [OF assms(1)] by (simp only: of_int_le_iff)
    then have "(of_int ?mx :: rat) * 2 ^ shift x \<le> 2 ^ 53 * 2 ^ shift x" by simp
    also have "\<dots> = 2 ^ (53 + shift x)" by (simp add: power_add)
    also have "\<dots> \<le> 2 ^ (52 + shift y)" using lt by (intro power_increasing) auto
    also have "\<dots> = 2 ^ 52 * 2 ^ shift y" by (simp add: power_add)
    also have "\<dots> \<le> of_int ?my * 2 ^ shift y"
    proof -
      have "(of_int (2 ^ 52) :: rat) \<le> of_int ?my"
        using mantissa_lower [OF y0 sy] by (simp only: of_int_le_iff)
      then show ?thesis by simp
    qed
    finally show ?thesis .
  qed
  then show ?thesis by (simp add: round_magnitude_alt divide_right_mono)
qed


lemma round_magnitude_binade:
  assumes lo: "2 ^ a \<le> x * 2 ^ b" and hi: "x * 2 ^ b < 2 * 2 ^ a"
    and b1: "b \<le> 1074" and b2: "b \<le> a + 1022"
  shows "round_magnitude x =
    of_int (round_half_even (x * 2 ^ (52 + b) / 2 ^ a)) * 2 ^ a / 2 ^ (52 + b)"
proof -
  define k where "k = a + 1074 - b"
  have kb: "k + b = a + 1074" using b1 by (simp add: k_def)
  have sc: "scaled x = (x * 2 ^ b) * 2 ^ (1074 - b)"
  proof -
    have "(2::rat) ^ 1074 = 2 ^ (b + (1074 - b))" using b1 by simp
    then have "(2::rat) ^ 1074 = 2 ^ b * 2 ^ (1074 - b)" by (simp only: power_add)
    then show ?thesis by (simp add: scaled_def)
  qed
  have pk: "(2::rat) ^ k = 2 ^ a * 2 ^ (1074 - b)"
  proof -
    have "k = a + (1074 - b)" using b1 by (simp add: k_def)
    then show ?thesis by (simp only: power_add)
  qed
  have l: "2 ^ k \<le> scaled x"
    unfolding sc pk using lo by (simp add: mult_right_mono)
  have h: "scaled x < 2 ^ Suc k"
  proof -
    have "(x * 2 ^ b) * 2 ^ (1074 - b) < (2 * 2 ^ a) * 2 ^ (1074 - b)"
      using hi by (simp add: mult_strict_right_mono)
    then show ?thesis unfolding sc using pk by simp
  qed
  have "of_int (2 ^ k) \<le> scaled x" using l by simp
  then have fl: "2 ^ k \<le> \<lfloor>scaled x\<rfloor>" by (simp only: le_floor_iff)
  have "scaled x < of_int (2 ^ Suc k)" using h by simp
  then have fh: "\<lfloor>scaled x\<rfloor> < 2 ^ Suc k" by (simp only: floor_less_iff)
  have nl: "2 ^ k \<le> nat \<lfloor>scaled x\<rfloor>"
    using fl by (simp add: le_nat_iff)
  have f0: "0 \<le> \<lfloor>scaled x\<rfloor>"
    using fl by (rule order_trans [rotated]) simp
  have nh: "nat \<lfloor>scaled x\<rfloor> < 2 ^ Suc k"
    using fh by (simp add: nat_less_iff [OF f0])
  have bl: "bit_length (nat \<lfloor>scaled x\<rfloor>) = Suc k"
    using nl nh by (rule bit_length_eq)
  have sh: "shift x = a + 1022 - b"
    using b1 b2 by (simp add: shift_def bl k_def)
  have e1: "(2::rat) ^ 1074 * 2 ^ a = 2 ^ (52 + b) * 2 ^ (a + 1022 - b)"
  proof -
    have "1074 + a = (52 + b) + (a + 1022 - b)" using b2 by simp
    then show ?thesis by (simp only: power_add [symmetric])
  qed
  have q: "scaled x / 2 ^ (a + 1022 - b) = x * 2 ^ (52 + b) / 2 ^ a"
  proof -
    have "scaled x * 2 ^ a = (x * 2 ^ (52 + b)) * 2 ^ (a + 1022 - b)"
      using e1 by (simp add: scaled_def mult.assoc)
    then show ?thesis by (simp add: field_simps)
  qed
  have r: "(c::rat) * 2 ^ (a + 1022 - b) / 2 ^ 1074 = c * 2 ^ a / 2 ^ (52 + b)" for c
  proof -
    have "(c * 2 ^ (a + 1022 - b)) * 2 ^ (52 + b) = (c * 2 ^ a) * 2 ^ 1074"
      using e1 by (simp add: mult.assoc mult.commute)
    then show ?thesis by (simp add: field_simps)
  qed
  show ?thesis
    unfolding round_magnitude_alt sh q by (rule r)
qed

lemma round_magnitude_power2: "round_magnitude (2 ^ k) = 2 ^ k"
proof -
  have "round_magnitude (2 ^ k) =
      of_int (round_half_even ((2::rat) ^ k * 2 ^ (52 + 0) / 2 ^ k)) * 2 ^ k / 2 ^ (52 + 0)"
    by (rule round_magnitude_binade) simp_all
  also have "(2::rat) ^ k * 2 ^ (52 + 0) / 2 ^ k = of_int (2 ^ 52)" by simp
  finally show ?thesis by (simp only: round_half_even_of_int) simp
qed

lemma round_double_finite:
  assumes "0 \<le> x" "x \<le> 2 ^ k" "k \<le> 1023"
  shows "round_double x = Finite (round_magnitude x)" and "round_magnitude x \<le> 2 ^ k"
proof -
  have "round_magnitude x \<le> round_magnitude (2 ^ k)"
    using assms(1,2) by (rule round_magnitude_mono)
  then show le: "round_magnitude x \<le> 2 ^ k" by (simp only: round_magnitude_power2)
  have "(2::rat) ^ k \<le> 2 ^ 1023" using assms(3) by (intro power_increasing) auto
  also have "\<dots> < 2 ^ 1024" by simp
  finally have "round_magnitude x < 2 ^ 1024" using le by simp
  then show "round_double x = Finite (round_magnitude x)"
    using assms(1) by (simp add: round_double_def Let_def)
qed

lemma round_double_binade:
  assumes "2 ^ a \<le> x * 2 ^ b" "x * 2 ^ b < 2 * 2 ^ a" "b \<le> 1074" "b \<le> a + 1022"
    and "a \<le> 1022"
  shows "round_double x =
    Finite (of_int (round_half_even (x * 2 ^ (52 + b) / 2 ^ a)) * 2 ^ a / 2 ^ (52 + b))"
proof -
  have "0 < x * 2 ^ b" using assms(1) by (rule less_le_trans [rotated]) simp
  then have x0: "0 \<le> x" by (simp add: zero_less_mult_iff)
  have "x * 2 ^ b \<le> 2 ^ Suc a * 1" using assms(2) by simp
  also have "\<dots> \<le> 2 ^ Suc a * 2 ^ b" by (intro mult_left_mono) auto
  finally have "x \<le> 2 ^ Suc a" by simp
  then have "round_double x = Finite (round_magnitude x)"
    using x0 assms(5) by (intro round_double_finite(1) [where k = "Suc a"]) auto
  then show ?thesis using round_magnitude_binade [OF assms(1,2,3,4)] by simp
qed


lemma floor_rat_numeral:
  "\<lfloor>numeral a / numeral b :: rat\<rfloor> = numeral a div numeral b"
  using floor_divide_of_int_eq [of "numeral a" "numeral b", where ?'a = rat] by simp

lemmas eval_round = round_half_even_def Let_def floor_rat_numeral

lemma decimal_10: "decimal 10 1 = Finite 1"
  unfolding decimal_def
  by (subst round_double_binade [where a = 0 and b = 0]) (simp_all add: eval_round)

lemma decimal_15: "decimal 15 1 = Finite (3 / 2)"
  unfolding decimal_def
  by (subst round_double_binade [where a = 0 and b = 0]) (simp_all add: eval_round)

lemma decimal_13: "decimal 13 1 = Finite (5854679515581645 / 4503599627370496)"
  unfolding decimal_def
  by (subst round_double_binade [where a = 0 and b = 0]) (simp_all add: eval_round)

lemma decimal_16: "decimal 16 1 = Finite (3602879701896397 / 2251799813685248)"
  unfolding decimal_def
  by (subst round_double_binade [where a = 0 and b = 0]) (simp_all add: eval_round)

lemma decimal_12: "decimal 12 1 = Finite (5404319552844595 / 4503599627370496)"
  unfolding decimal_def
  by (subst round_double_binade [where a = 0 and b = 0]) (simp_all add: eval_round)

lemma decimal_8: "decimal 8 1 = Finite (3602879701896397 / 4503599627370496)"
  unfolding decimal_def
  by (subst round_double_binade [where a = 0 and b = 1]) (simp_all add: eval_round)

section \<open>Properties of the requirement calculation\<close>

lemma to_float_30: "to_float (PyInt 30) = Inr (Finite 30)"
  unfolding to_float.simps
  by (subst round_double_binade [where a = 4 and b = 0]) (simp_all add: eval_round)

lemma multiplier_spec:
  "get_or complexity_map tier (decimal 13 1) = spec_multiplier tier"
  by (simp add: get_or_def complexity_map_def spec_multiplier_def)

lemma spec_multiplier_cases:
  "spec_multiplier tier = Finite 1
   \<or> spec_multiplier tier = Finite (5854679515581645 / 4503599627370496)
   \<or> spec_multiplier tier = Finite (3602879701896397 / 2251799813685248)"
  by (simp add: spec_multiplier_def decimal_10 decimal_13 decimal_16)

lemma spec_multiplier_range:
  "\<exists>m. spec_multiplier tier = Finite m \<and> 1 \<le> m \<and> m \<le> 2"
proof -
  have "\<exists>m. Finite 1 = Finite m \<and> 1 \<le> m \<and> m \<le> 2" by simp
  moreover have "\<exists>m. Finite (5854679515581645 / 4503599627370496) = Finite m \<and> 1 \<le> m \<and> m \<le> 2"
    by (rule exI [of _ "5854679515581645 / 4503599627370496"]) simp
  moreover have "\<exists>m. Finite (3602879701896397 / 2251799813685248) = Finite m \<and> 1 \<le> m \<and> m \<le> 2"
    by (rule exI [of _ "3602879701896397 / 2251799813685248"]) simp
  ultimately show ?thesis using spec_multiplier_cases [of tier] by (elim disjE) simp_all
qed

lemma fmul_nonneg:
  assumes "0 \<le> a" "a \<le> 2 ^ k" "0 \<le> c" "c \<le> 2" "k \<le> 1022"
  shows "fmul (Finite a) (Finite c) = Finite (round_magnitude (a * c))"
    and "0 \<le> round_magnitude (a * c)"
    and "round_magnitude (a * c) \<le> 2 ^ Suc k"
proof -
  have nn: "0 \<le> a * c" using assms(1,3) by simp
  have "a * c \<le> 2 ^ k * 2" using assms(1-4) by (intro mult_mono) auto
  then have le: "a * c \<le> 2 ^ Suc k" by simp
  have k: "Suc k \<le> 1023" using assms(5) by simp
  show "fmul (Finite a) (Finite c) = Finite (round_magnitude (a * c))"
    using round_double_finite(1) [OF nn le k] by simp
  show "0 \<le> round_magnitude (a * c)" using nn by (rule round_magnitude_nonneg)
  show "round_magnitude (a * c) \<le> 2 ^ Suc k" by (rule round_double_finite(2) [OF nn le k])
qed

lemma py_trunc_mono: "x \<le> y \<Longrightarrow> py_trunc x \<le> py_trunc y"
proof -
  assume le: "x \<le> y"
  show ?thesis
  proof (cases "0 \<le> x")
    case True
    with le have "0 \<le> y" by simp
    with True le show ?thesis by (simp add: py_trunc_def floor_mono)
  next
    case False
    then have x: "py_trunc x = \<lceil>x\<rceil>" and "x < 0" by (simp_all add: py_trunc_def)
    then have c0: "\<lceil>x\<rceil> \<le> 0" by (simp add: ceiling_le_iff)
    show ?thesis
    proof (cases "0 \<le> y")
      case True
      then have y: "py_trunc y = \<lfloor>y\<rfloor>" by (simp add: py_trunc_def)
      have "0 \<le> \<lfloor>y\<rfloor>" using True by simp
      with c0 show ?thesis unfolding x y by linarith
    next
      case False
      then have "py_trunc y = \<lceil>y\<rceil>" by (simp add: py_trunc_def)
      with x le show ?thesis by (simp add: ceiling_mono)
    qed
  qed
qed

lemma number_value_gt_zero:
  "number_value d = Some q \<Longrightarrow> gt_zero d = (0 < q)"
  by (cases d rule: number_value.cases) auto

lemma to_float_value:
  assumes "number_value d = Some q" "0 \<le> q" "q \<le> 2 ^ k" "k \<le> 1023"
  shows "\<exists>f. to_float d = Inr (Finite f) \<and> 0 \<le> f \<and> f \<le> 2 ^ k"
proof (cases d rule: number_value.cases)
  case (1 n)
  with assms(1) have q: "q = of_int n" by simp
  have "round_double (of_int n) = Finite (round_magnitude (of_int n))"
    "round_magnitude (of_int n) \<le> 2 ^ k"
    using round_double_finite [of "of_int n" k] assms(2-4) q by simp_all
  moreover have "0 \<le> round_magnitude (of_int n)"
    using assms(2) q by (intro round_magnitude_nonneg) simp
  ultimately show ?thesis using 1 by simp
next
  case (2 x)
  with assms show ?thesis by simp
qed (use assms(1) in simp_all)

lemma to_float_genuine:
  assumes "number_value d = Some q" "genuine d" "0 \<le> q" "q \<le> 2 ^ k" "k \<le> 1023"
  shows "to_float d = Inr (Finite (round_magnitude q))"
proof (cases d rule: number_value.cases)
  case (1 n)
  with assms(1) have q: "q = of_int n" by simp
  have "round_double (of_int n) = Finite (round_magnitude (of_int n))"
    using round_double_finite(1) [of "of_int n" k] assms(3-5) q by simp
  then show ?thesis using 1 q by simp
next
  case (2 x)
  with assms(1) have q: "q = x" by simp
  have "round_double q = Finite q" using assms(2) 2 q by (simp add: binary64_def)
  moreover have "round_double q = Finite (round_magnitude q)"
    using round_double_finite(1) [of q k] assms(3-5) by simp
  ultimately have "round_magnitude q = q" by simp
  then show ?thesis using 2 q by simp
qed (use assms(1) in simp_all)

text \<open>
  The float product of a non-negative base below \<open>2 ^ 1001\<close> with the multiplier of a tier
  and with 1.2 is finite: it is the twice rounded exact product.
\<close>

lemma product_finite:
  assumes b: "0 \<le> b" "b \<le> 2 ^ 1001" and m: "0 \<le> m" "m \<le> 2"
  shows "fmul (fmul (Finite b) (Finite m)) (decimal 12 1) =
      Finite (round_magnitude (round_magnitude (b * m) * (5404319552844595 / 4503599627370496)))"
proof -
  have 1: "fmul (Finite b) (Finite m) = Finite (round_magnitude (b * m))"
    and 2: "0 \<le> round_magnitude (b * m)" and 3: "round_magnitude (b * m) \<le> 2 ^ Suc 1001"
    using fmul_nonneg [OF b m] by simp_all
  have "fmul (Finite (round_magnitude (b * m))) (Finite (5404319552844595 / 4503599627370496)) =
      Finite (round_magnitude (round_magnitude (b * m) * (5404319552844595 / 4503599627370496)))"
    using 2 3 by (intro fmul_nonneg(1) [where k = "Suc 1001"]) simp_all
  then show ?thesis by (simp only: 1 decimal_12)
qed

lemma base_finite:
  assumes d: "number_value d = Some q" "0 \<le> q" "q \<le> 2 ^ 1000" and c: "0 \<le> c" "c \<le> 2"
  shows "\<exists>b. mul_float d (Finite c) = Inr (Finite b) \<and> 0 \<le> b \<and> b \<le> 2 ^ 1001"
proof -
  from to_float_value [OF d] obtain f where
    f: "to_float d = Inr (Finite f)" "0 \<le> f" "f \<le> 2 ^ 1000" by auto
  have "fmul (Finite f) (Finite c) = Finite (round_magnitude (f * c))"
    "0 \<le> round_magnitude (f * c)" "round_magnitude (f * c) \<le> 2 ^ Suc 1000"
    using fmul_nonneg [OF f(2,3) c] by simp_all
  then show ?thesis using f(1) by (simp add: mul_float_def)
qed

lemma spec_base_finite:
  assumes "number_value d = Some qd" "number_value t = Some qt" "qd \<le> 2 ^ 1000" "qt \<le> 2 ^ 1000"
  shows "\<exists>b. spec_base d t = Inr (Finite b) \<and> 0 \<le> b \<and> b \<le> 2 ^ 1001"
proof (cases "gt_zero d")
  case True
  then have "0 \<le> qd" using number_value_gt_zero [OF assms(1)] by simp
  from base_finite [OF assms(1) this assms(3), of "3 / 2"] True
  show ?thesis by (simp add: spec_base_def decimal_15)
next
  case False
  show ?thesis
  proof (cases "gt_zero t")
    case True
    then have "0 \<le> qt" using number_value_gt_zero [OF assms(2)] by simp
    from base_finite [OF assms(2) this assms(4), of "3602879701896397 / 4503599627370496"] True False
    show ?thesis by (simp add: spec_base_def decimal_8)
  next
    case f: False
    have "(30::rat) \<le> 2 ^ 1001" by simp
    with False f show ?thesis by (simp add: spec_base_def)
  qed
qed

lemma calculate_as_spec:
  "calculate_resource_requirement d tier t =
     (case spec_base d t of
        Inl e \<Rightarrow> Inl e
      | Inr b \<Rightarrow> py_int (fmul (fmul b (spec_multiplier tier)) (decimal 12 1)))"
  by (simp add: calculate_resource_requirement_def Let_def multiplier_spec spec_base_def to_float_30
        del: to_float.simps)

lemma to_float_25: "to_float (PyInt 25) = Inr (Finite 25)"
  unfolding to_float.simps
  by (subst round_double_binade [where a = 4 and b = 0]) (simp_all add: eval_round)

lemma base_25: "mul_float (PyInt 25) (decimal 15 1) = Inr (Finite (75 / 2))"
  unfolding mul_float_def to_float_25 decimal_15 sum.case fmul.simps
  by (subst round_double_binade [where a = 5 and b = 0]) (simp_all add: eval_round)

lemma medium_25: "fmul (Finite (75 / 2)) (decimal 13 1) = Finite (195 / 4)"
  unfolding decimal_13 fmul.simps
  by (subst round_double_binade [where a = 5 and b = 0]) (simp_all add: eval_round)

lemma total_25: "fmul (Finite (195 / 4)) (decimal 12 1) = Finite (117 / 2)"
  unfolding decimal_12 fmul.simps
  by (subst round_double_binade [where a = 5 and b = 0]) (simp_all add: eval_round)

lemma calculate_25_medium:
  "calculate_resource_requirement (PyInt 25) ''medium'' (PyInt 0) = Inr 58"
proof -
  have "calculate_resource_requirement (PyInt 25) ''medium'' (PyInt 0) =
      py_int (fmul (fmul (Finite (75 / 2)) (decimal 13 1)) (decimal 12 1))"
    by (simp add: calculate_as_spec spec_base_def spec_multiplier_def base_25)
  also have "\<dots> = py_int (Finite (117 / 2))"
    by (simp only: medium_25 total_25)
  also have "\<dots> = Inr 58"
    by (simp add: py_trunc_def floor_rat_numeral)
  finally show ?thesis .
qed

text \<open>
  C1. The requirement is the truncation of base times multiplier times 1.2, the products
  being Python's float products: the multiplier is 1.0, 1.3 or 1.6 for \<open>low\<close>,
  \<open>medium\<close>, \<open>high\<close> and 1.3 for any other tier, the base is distance times 1.5 for a
  positive distance, else duration times 0.8 for a positive duration, else 30. For finite
  arguments up to \<open>2 ^ 1000\<close> the product is finite and the call returns its truncation.
  A distance of 25 at \<open>medium\<close> gives 58.
\<close>

theorem calculate_resource_requirement_rule:
  "calculate_resource_requirement distance complexity duration =
     (case spec_base distance duration of
        Inl e \<Rightarrow> Inl e
      | Inr base \<Rightarrow> py_int (fmul (fmul base (spec_multiplier complexity)) (decimal 12 1)))
   \<and> (number_value distance = Some qd \<and> number_value duration = Some qt
        \<and> qd \<le> 2 ^ 1000 \<and> qt \<le> 2 ^ 1000
      \<longrightarrow> (\<exists>base total.
             spec_base distance duration = Inr (Finite base)
           \<and> fmul (fmul (Finite base) (spec_multiplier complexity)) (decimal 12 1) = Finite total
           \<and> calculate_resource_requirement distance complexity duration = Inr (py_trunc total)))
   \<and> calculate_resource_requirement (PyInt 25) ''medium'' (PyInt 0) = Inr 58"
proof (intro conjI impI)
  show "calculate_resource_requirement distance complexity duration =
     (case spec_base distance duration of
        Inl e \<Rightarrow> Inl e
      | Inr base \<Rightarrow> py_int (fmul (fmul base (spec_multiplier complexity)) (decimal 12 1)))"
    by (rule calculate_as_spec)
  show "calculate_resource_requirement (PyInt 25) ''medium'' (PyInt 0) = Inr 58"
    by (rule calculate_25_medium)
  assume a: "number_value distance = Some qd \<and> number_value duration = Some qt
        \<and> qd \<le> 2 ^ 1000 \<and> qt \<le> 2 ^ 1000"
  then obtain b where b: "spec_base distance duration = Inr (Finite b)" "0 \<le> b" "b \<le> 2 ^ 1001"
    using spec_base_finite [of distance qd duration qt] by blast
  obtain m where m: "spec_multiplier complexity = Finite m" "1 \<le> m" "m \<le> 2"
    using spec_multiplier_range [of complexity] by blast
  then have m0: "0 \<le> m" by simp
  define total where
    "total = round_magnitude (round_magnitude (b * m) * (5404319552844595 / 4503599627370496))"
  have t: "fmul (fmul (Finite b) (spec_multiplier complexity)) (decimal 12 1) = Finite total"
    unfolding m(1) total_def using b(2,3) m0 m(3) by (rule product_finite)
  have "calculate_resource_requirement distance complexity duration = Inr (py_trunc total)"
    by (simp add: calculate_as_spec b(1) t)
  with b(1) t show "\<exists>base total.
             spec_base distance duration = Inr (Finite base)
           \<and> fmul (fmul (Finite base) (spec_multiplier complexity)) (decimal 12 1) = Finite total
           \<and> calculate_resource_requirement distance complexity duration = Inr (py_trunc total)"
    by blast
qed

theorem calculate_resource_requirement_rule_witness:
  "number_value (PyInt 25) = Some 25 \<and> number_value (PyInt 0) = Some 0
   \<and> (25::rat) \<le> 2 ^ 1000 \<and> (0::rat) \<le> 2 ^ 1000
   \<and> (\<exists>base total.
         spec_base (PyInt 25) (PyInt 0) = Inr (Finite base)
       \<and> fmul (fmul (Finite base) (spec_multiplier ''medium'')) (decimal 12 1) = Finite total
       \<and> calculate_resource_requirement (PyInt 25) ''medium'' (PyInt 0) = Inr (py_trunc total))"
proof -
  have h: "number_value (PyInt 25) = Some 25 \<and> number_value (PyInt 0) = Some 0
      \<and> (25::rat) \<le> 2 ^ 1000 \<and> (0::rat) \<le> 2 ^ 1000"
    by simp
  from calculate_resource_requirement_rule
    [of "PyInt 25" "''medium''" "PyInt 0" 25 0, THEN conjunct2, THEN conjunct1] h
  have "\<exists>base total.
         spec_base (PyInt 25) (PyInt 0) = Inr (Finite base)
       \<and> fmul (fmul (Finite base) (spec_multiplier ''medium'')) (decimal 12 1) = Finite total
       \<and> calculate_resource_requirement (PyInt 25) ''medium'' (PyInt 0) = Inr (py_trunc total)"
    by (rule mp)
  with h show ?thesis by (intro conjI) simp_all
qed

lemma chain_mono:
  assumes "0 \<le> f1" "f1 \<le> f2" "0 \<le> c" "0 \<le> m1" "m1 \<le> m2"
  shows "chain f1 c m1 \<le> chain f2 c m2"
proof -
  have f2: "0 \<le> f2" using assms(1,2) by simp
  have a1: "0 \<le> f1 * c" using assms(1,3) by simp
  have a2: "f1 * c \<le> f2 * c" using assms(2,3) by (rule mult_right_mono)
  have b0: "0 \<le> round_magnitude (f1 * c)" using a1 by (rule round_magnitude_nonneg)
  have b1: "round_magnitude (f1 * c) \<le> round_magnitude (f2 * c)"
    using a1 a2 by (rule round_magnitude_mono)
  have c0: "0 \<le> round_magnitude (f1 * c) * m1" using b0 assms(4) by simp
  have c1: "round_magnitude (f1 * c) * m1 \<le> round_magnitude (f2 * c) * m2"
    using b1 assms(5) assms(4) b0 by (intro mult_mono) auto
  have d0: "0 \<le> round_magnitude (round_magnitude (f1 * c) * m1)"
    using c0 by (rule round_magnitude_nonneg)
  have d1: "round_magnitude (round_magnitude (f1 * c) * m1)
      \<le> round_magnitude (round_magnitude (f2 * c) * m2)"
    using c0 c1 by (rule round_magnitude_mono)
  have e0: "0 \<le> round_magnitude (round_magnitude (f1 * c) * m1)
      * (5404319552844595 / 4503599627370496)"
    using d0 by simp
  have e1: "round_magnitude (round_magnitude (f1 * c) * m1) * (5404319552844595 / 4503599627370496)
      \<le> round_magnitude (round_magnitude (f2 * c) * m2) * (5404319552844595 / 4503599627370496)"
    using d1 by (intro mult_right_mono) auto
  show ?thesis unfolding chain_def using e0 e1 by (rule round_magnitude_mono)
qed

text \<open>With a positive distance the requirement is the truncated chain of three roundings.\<close>

lemma calculate_positive:
  assumes d: "number_value d = Some q" "0 < q" "q \<le> 2 ^ 1000"
    and f: "to_float d = Inr (Finite f)" "0 \<le> f" "f \<le> 2 ^ 1000"
    and m: "spec_multiplier tier = Finite m" "0 \<le> m" "m \<le> 2"
  shows "calculate_resource_requirement d tier t = Inr (py_trunc (chain f (3 / 2) m))"
proof -
  have pos: "gt_zero d" using number_value_gt_zero [OF d(1)] d(2) by simp
  have b: "fmul (Finite f) (Finite (3 / 2)) = Finite (round_magnitude (f * (3 / 2)))"
    "0 \<le> round_magnitude (f * (3 / 2))" "round_magnitude (f * (3 / 2)) \<le> 2 ^ Suc 1000"
    using fmul_nonneg [OF f(2,3), of "3 / 2"] by simp_all
  have base: "spec_base d t = Inr (Finite (round_magnitude (f * (3 / 2))))"
    using pos f(1) b(1) by (simp add: spec_base_def mul_float_def decimal_15)
  have "fmul (fmul (Finite (round_magnitude (f * (3 / 2)))) (Finite m)) (decimal 12 1) =
      Finite (chain f (3 / 2) m)"
    unfolding chain_def using b(2,3) m(2,3) by (intro product_finite) simp_all
  then show ?thesis by (simp add: calculate_as_spec base m(1))
qed

lemma multiplier_low: "spec_multiplier ''low'' = Finite 1"
  by (simp add: spec_multiplier_def decimal_10)

lemma multiplier_medium:
  "spec_multiplier ''medium'' = Finite (5854679515581645 / 4503599627370496)"
  by (simp add: spec_multiplier_def decimal_13)

lemma multiplier_high:
  "spec_multiplier ''high'' = Finite (3602879701896397 / 2251799813685248)"
  by (simp add: spec_multiplier_def decimal_16)

text \<open>
  C6. For every tier the requirement does not decrease when a positive distance grows, and
  for every positive distance it does not decrease from \<open>low\<close> to \<open>medium\<close> to
  \<open>high\<close>; the calls return. Distances are Python numbers of value up to \<open>2 ^ 1000\<close>.
\<close>

theorem calculate_resource_requirement_monotone:
  "(genuine d1 \<and> genuine d2 \<and> number_value d1 = Some q1 \<and> number_value d2 = Some q2
      \<and> 0 < q1 \<and> q1 \<le> q2 \<and> q2 \<le> 2 ^ 1000
    \<longrightarrow> (\<exists>r1 r2. calculate_resource_requirement d1 tier t = Inr r1
          \<and> calculate_resource_requirement d2 tier t = Inr r2 \<and> r1 \<le> r2))
   \<and> (number_value d = Some q \<and> 0 < q \<and> q \<le> 2 ^ 1000
    \<longrightarrow> (\<exists>rl rm rh. calculate_resource_requirement d ''low'' t = Inr rl
          \<and> calculate_resource_requirement d ''medium'' t = Inr rm
          \<and> calculate_resource_requirement d ''high'' t = Inr rh
          \<and> rl \<le> rm \<and> rm \<le> rh))"
proof (intro conjI impI)
  assume a: "genuine d1 \<and> genuine d2 \<and> number_value d1 = Some q1 \<and> number_value d2 = Some q2
      \<and> 0 < q1 \<and> q1 \<le> q2 \<and> q2 \<le> 2 ^ 1000"
  then have q1: "0 \<le> q1" "q1 \<le> 2 ^ 1000" and q2: "0 \<le> q2" "0 < q2" by simp_all
  have k: "(1000::nat) \<le> 1023" by simp
  have f1: "to_float d1 = Inr (Finite (round_magnitude q1))"
    using a q1 k by (intro to_float_genuine [where k = 1000]) simp_all
  have f2: "to_float d2 = Inr (Finite (round_magnitude q2))"
    using a q2 k by (intro to_float_genuine [where k = 1000]) simp_all
  have r1: "0 \<le> round_magnitude q1" "round_magnitude q1 \<le> 2 ^ 1000"
    using round_magnitude_nonneg [OF q1(1)] round_double_finite(2) [OF q1 k] by simp_all
  have r2: "0 \<le> round_magnitude q2" "round_magnitude q2 \<le> 2 ^ 1000"
    using round_magnitude_nonneg [OF q2(1)] round_double_finite(2) [OF q2(1) _ k, of ] a by simp_all
  have le: "round_magnitude q1 \<le> round_magnitude q2"
    using q1(1) a by (intro round_magnitude_mono) simp_all
  obtain m where m: "spec_multiplier tier = Finite m" "1 \<le> m" "m \<le> 2"
    using spec_multiplier_range [of tier] by blast
  then have m0: "0 \<le> m" by simp
  have c1: "calculate_resource_requirement d1 tier t =
      Inr (py_trunc (chain (round_magnitude q1) (3 / 2) m))"
    using a q1(2) f1 r1 m(1) m0 m(3) by (intro calculate_positive [where q = q1]) simp_all
  have c2: "calculate_resource_requirement d2 tier t =
      Inr (py_trunc (chain (round_magnitude q2) (3 / 2) m))"
    using a q2(2) f2 r2 m(1) m0 m(3) by (intro calculate_positive [where q = q2]) simp_all
  have "chain (round_magnitude q1) (3 / 2) m \<le> chain (round_magnitude q2) (3 / 2) m"
    using r1(1) le m0 by (intro chain_mono) simp_all
  then have "py_trunc (chain (round_magnitude q1) (3 / 2) m)
      \<le> py_trunc (chain (round_magnitude q2) (3 / 2) m)"
    by (rule py_trunc_mono)
  with c1 c2 show "\<exists>r1 r2. calculate_resource_requirement d1 tier t = Inr r1
          \<and> calculate_resource_requirement d2 tier t = Inr r2 \<and> r1 \<le> r2"
    by blast
next
  assume a: "number_value d = Some q \<and> 0 < q \<and> q \<le> 2 ^ 1000"
  then have q: "number_value d = Some q" "0 < q" "0 \<le> q" "q \<le> 2 ^ 1000" by simp_all
  have k: "(1000::nat) \<le> 1023" by simp
  from to_float_value [OF q(1,3,4) k] obtain f where
    f: "to_float d = Inr (Finite f)" "0 \<le> f" "f \<le> 2 ^ 1000" by blast
  let ?m = "5854679515581645 / 4503599627370496 :: rat"
  let ?h = "3602879701896397 / 2251799813685248 :: rat"
  have l: "calculate_resource_requirement d ''low'' t = Inr (py_trunc (chain f (3 / 2) 1))"
    using q(1,2,4) f multiplier_low by (rule calculate_positive) simp_all
  have m: "calculate_resource_requirement d ''medium'' t = Inr (py_trunc (chain f (3 / 2) ?m))"
    using q(1,2,4) f multiplier_medium by (rule calculate_positive) simp_all
  have h: "calculate_resource_requirement d ''high'' t = Inr (py_trunc (chain f (3 / 2) ?h))"
    using q(1,2,4) f multiplier_high by (rule calculate_positive) simp_all
  have "chain f (3 / 2) 1 \<le> chain f (3 / 2) ?m"
    using f(2) by (intro chain_mono) simp_all
  then have lm: "py_trunc (chain f (3 / 2) 1) \<le> py_trunc (chain f (3 / 2) ?m)"
    by (rule py_trunc_mono)
  have "chain f (3 / 2) ?m \<le> chain f (3 / 2) ?h"
    using f(2) by (intro chain_mono) simp_all
  then have mh: "py_trunc (chain f (3 / 2) ?m) \<le> py_trunc (chain f (3 / 2) ?h)"
    by (rule py_trunc_mono)
  from l m h lm mh show "\<exists>rl rm rh. calculate_resource_requirement d ''low'' t = Inr rl
          \<and> calculate_resource_requirement d ''medium'' t = Inr rm
          \<and> calculate_resource_requirement d ''high'' t = Inr rh
          \<and> rl \<le> rm \<and> rm \<le> rh"
    by blast
qed

lemma binary64_25_5: "binary64 (51 / 2)"
  unfolding binary64_def
  by (subst round_double_binade [where a = 4 and b = 0]) (simp_all add: eval_round)

theorem calculate_resource_requirement_monotone_witness:
  "genuine (PyInt 25) \<and> genuine (PyFloat (Finite (51 / 2)))
   \<and> number_value (PyInt 25) = Some 25 \<and> number_value (PyFloat (Finite (51 / 2))) = Some (51 / 2)
   \<and> (0::rat) < 25 \<and> (25::rat) \<le> 51 / 2 \<and> (51 / 2 :: rat) \<le> 2 ^ 1000
   \<and> (\<exists>r1 r2. calculate_resource_requirement (PyInt 25) ''medium'' (PyInt 0) = Inr r1
          \<and> calculate_resource_requirement (PyFloat (Finite (51 / 2))) ''medium'' (PyInt 0) = Inr r2
          \<and> r1 \<le> r2)
   \<and> (\<exists>rl rm rh. calculate_resource_requirement (PyInt 25) ''low'' (PyInt 0) = Inr rl
          \<and> calculate_resource_requirement (PyInt 25) ''medium'' (PyInt 0) = Inr rm
          \<and> calculate_resource_requirement (PyInt 25) ''high'' (PyInt 0) = Inr rh
          \<and> rl \<le> rm \<and> rm \<le> rh)"
proof -
  have h1: "genuine (PyInt 25) \<and> genuine (PyFloat (Finite (51 / 2)))
      \<and> number_value (PyInt 25) = Some 25
      \<and> number_value (PyFloat (Finite (51 / 2))) = Some (51 / 2)
      \<and> (0::rat) < 25 \<and> (25::rat) \<le> 51 / 2 \<and> (51 / 2 :: rat) \<le> 2 ^ 1000"
    by (simp add: binary64_25_5)
  have h2: "number_value (PyInt 25) = Some 25 \<and> (0::rat) < 25 \<and> (25::rat) \<le> 2 ^ 1000"
    by simp
  note inst = calculate_resource_requirement_monotone
    [of "PyInt 25" "PyFloat (Finite (51 / 2))" 25 "51 / 2" "''medium''" "PyInt 0" "PyInt 25" 25]
  have c1: "\<exists>r1 r2. calculate_resource_requirement (PyInt 25) ''medium'' (PyInt 0) = Inr r1
          \<and> calculate_resource_requirement (PyFloat (Finite (51 / 2))) ''medium'' (PyInt 0) = Inr r2
          \<and> r1 \<le> r2"
    using inst [THEN conjunct1] h1 by (rule mp)
  have c2: "\<exists>rl rm rh. calculate_resource_requirement (PyInt 25) ''low'' (PyInt 0) = Inr rl
          \<and> calculate_resource_requirement (PyInt 25) ''medium'' (PyInt 0) = Inr rm
          \<and> calculate_resource_requirement (PyInt 25) ''high'' (PyInt 0) = Inr rh
          \<and> rl \<le> rm \<and> rm \<le> rh"
    using inst [THEN conjunct2] h2 by (rule mp)
  from h1 c1 c2 show ?thesis by (intro conjI) simp_all
qed

section \<open>Properties of resource selection\<close>

text \<open>
  The loop behind \<open>max\<close> returns the first item of greatest key: every item before it has a
  strictly smaller key, every item after it a key that is not greater.
\<close>

lemma max_loop_first_maximum:
  "\<exists>pre post. best # xs = pre @ max_loop key best xs # post
     \<and> (\<forall>x\<in>set pre. key x < key (max_loop key best xs))
     \<and> (\<forall>x\<in>set post. key x \<le> key (max_loop key best xs))"
proof (induction xs arbitrary: best)
  case Nil
  have "[best] = [] @ max_loop key best [] # []" by simp
  then show ?case by (metis empty_iff empty_set)
next
  case (Cons x xs)
  define b where "b = (if key best < key x then x else best)"
  define r where "r = max_loop key b xs"
  from Cons.IH [of b] obtain pre post where
    split: "b # xs = pre @ r # post"
    and before: "\<forall>y\<in>set pre. key y < key r"
    and after: "\<forall>y\<in>set post. key y \<le> key r"
    unfolding r_def by blast
  have res: "max_loop key best (x # xs) = r" by (simp add: r_def b_def)
  show ?case
  proof (cases "key best < key x")
    case True
    then have s: "x # xs = pre @ r # post" using split by (simp add: b_def)
    have "key x \<le> key r"
    proof (cases pre)
      case Nil
      with s show ?thesis by simp
    next
      case (Cons p ps)
      with s have "x \<in> set pre" by simp
      with before show ?thesis by fastforce
    qed
    with True have "key best < key r" by simp
    with before have "\<forall>y\<in>set (best # pre). key y < key r" by simp
    moreover have "best # x # xs = (best # pre) @ r # post" using s by simp
    ultimately show ?thesis unfolding res using after by blast
  next
    case False
    then have s: "best # xs = pre @ r # post" using split by (simp add: b_def)
    show ?thesis
    proof (cases pre)
      case Nil
      with s have e: "r = best" "post = xs" by simp_all
      have "best # x # xs = [] @ r # (x # xs)" using e by simp
      moreover have "\<forall>y\<in>set (x # xs). key y \<le> key r" using after e False by auto
      moreover have "\<forall>y\<in>set []. key y < key r" by simp
      ultimately show ?thesis unfolding res by blast
    next
      case (Cons p ps)
      with s have p: "p = best" and xs: "xs = ps @ r # post" by simp_all
      have "key best < key r" using before Cons p by simp
      with False have "key x < key r" by simp
      with before Cons p have "\<forall>y\<in>set (best # x # ps). key y < key r" by simp
      moreover have "best # x # xs = (best # x # ps) @ r # post" using xs by simp
      ultimately show ?thesis unfolding res using after by blast
    qed
  qed
qed

lemma select_optimal_resource_result:
  "fst (select_optimal_resource a w resource_type min_capacity) =
     (case filter (\<lambda>r. status r = ''available'' \<and> min_capacity \<le> capacity r)
             (get_available_resources resource_type) of
        [] \<Rightarrow> None
      | first # others \<Rightarrow> Some (max_loop capacity first others))"
  by (simp add: select_optimal_resource_def Let_def log_decision_def split: list.split)

lemma select_drone:
  "fst (select_optimal_resource a w ''drone'' min_capacity) =
     (if min_capacity \<le> 45 then
        Some \<lparr>resource_id = ''RESOURCE-004'', capacity = 100, status = ''available'', location = ''Base-A''\<rparr>
      else if min_capacity \<le> 95 then
        Some \<lparr>resource_id = ''RESOURCE-004'', capacity = 100, status = ''available'', location = ''Base-A''\<rparr>
      else if min_capacity \<le> 100 then
        Some \<lparr>resource_id = ''RESOURCE-004'', capacity = 100, status = ''available'', location = ''Base-A''\<rparr>
      else None)"
  by (simp add: select_optimal_resource_result get_available_resources_def)

text \<open>
  C2. For every resource type and every required capacity, the entries considered are the
  table entries that are available and have at least the required capacity, in table
  order; when there is none the result is \<open>None\<close>, a value and not an exception; otherwise
  the result is one of them, of greatest capacity and the first such. With 58 required, the
  drone table yields its entry of capacity 100.
\<close>

theorem select_optimal_resource_first_maximum:
  "(filter (\<lambda>r. status r = ''available'' \<and> min_capacity \<le> capacity r)
       (get_available_resources resource_type) = []
     \<longrightarrow> fst (select_optimal_resource a w resource_type min_capacity) = None)
   \<and> (filter (\<lambda>r. status r = ''available'' \<and> min_capacity \<le> capacity r)
         (get_available_resources resource_type) \<noteq> []
     \<longrightarrow> (\<exists>pre r post.
            fst (select_optimal_resource a w resource_type min_capacity) = Some r
          \<and> filter (\<lambda>r. status r = ''available'' \<and> min_capacity \<le> capacity r)
              (get_available_resources resource_type) = pre @ r # post
          \<and> (\<forall>x\<in>set pre. capacity x < capacity r)
          \<and> (\<forall>x\<in>set post. capacity x \<le> capacity r)))
   \<and> fst (select_optimal_resource a w ''drone'' 58) =
       Some \<lparr>resource_id = ''RESOURCE-004'', capacity = 100, status = ''available'',
             location = ''Base-A''\<rparr>"
proof -
  define available where "available =
    filter (\<lambda>r. status r = ''available'' \<and> min_capacity \<le> capacity r)
      (get_available_resources resource_type)"
  define chosen where "chosen = fst (select_optimal_resource a w resource_type min_capacity)"
  have res: "chosen = (case available of [] \<Rightarrow> None
      | first # others \<Rightarrow> Some (max_loop capacity first others))"
    unfolding chosen_def available_def by (rule select_optimal_resource_result)
  have none: "available = [] \<longrightarrow> chosen = None"
    by (simp add: res)
  have some: "available \<noteq> [] \<longrightarrow> (\<exists>pre r post. chosen = Some r \<and> available = pre @ r # post
      \<and> (\<forall>x\<in>set pre. capacity x < capacity r) \<and> (\<forall>x\<in>set post. capacity x \<le> capacity r))"
  proof
    assume "available \<noteq> []"
    then obtain first others where av: "available = first # others"
      by (cases available) auto
    obtain pre post where "first # others = pre @ max_loop capacity first others # post"
      "\<forall>x\<in>set pre. capacity x < capacity (max_loop capacity first others)"
      "\<forall>x\<in>set post. capacity x \<le> capacity (max_loop capacity first others)"
      using max_loop_first_maximum [of first others capacity] by blast
    moreover have "chosen = Some (max_loop capacity first others)"
      by (simp add: res av)
    ultimately show "\<exists>pre r post. chosen = Some r \<and> available = pre @ r # post
      \<and> (\<forall>x\<in>set pre. capacity x < capacity r) \<and> (\<forall>x\<in>set post. capacity x \<le> capacity r)"
      unfolding av by blast
  qed
  have drone: "fst (select_optimal_resource a w ''drone'' 58) =
       Some \<lparr>resource_id = ''RESOURCE-004'', capacity = 100, status = ''available'',
             location = ''Base-A''\<rparr>"
    by (simp add: select_drone)
  from none some drone show ?thesis
    unfolding chosen_def available_def by (intro conjI)
qed

theorem select_optimal_resource_first_maximum_witness:
  "filter (\<lambda>r. status r = ''available'' \<and> 58 \<le> capacity r) (get_available_resources ''drone'') \<noteq> []
   \<and> filter (\<lambda>r. status r = ''available'' \<and> 96 \<le> capacity r) (get_available_resources ''vehicle'') = []
   \<and> (\<exists>pre r post.
          fst (select_optimal_resource (init ''drone_operations'') (constant_world 0) ''drone'' 58) = Some r
        \<and> filter (\<lambda>r. status r = ''available'' \<and> 58 \<le> capacity r) (get_available_resources ''drone'')
            = pre @ r # post
        \<and> (\<forall>x\<in>set pre. capacity x < capacity r)
        \<and> (\<forall>x\<in>set post. capacity x \<le> capacity r))
   \<and> fst (select_optimal_resource (init ''logistics'') (constant_world 0) ''vehicle'' 96) = None"
proof -
  have 1: "filter (\<lambda>r. status r = ''available'' \<and> 58 \<le> capacity r)
      (get_available_resources ''drone'') \<noteq> []"
    by (simp add: get_available_resources_def)
  have 2: "filter (\<lambda>r. status r = ''available'' \<and> 96 \<le> capacity r)
      (get_available_resources ''vehicle'') = []"
    by (simp add: get_available_resources_def)
  have 3: "\<exists>pre r post.
          fst (select_optimal_resource (init ''drone_operations'') (constant_world 0) ''drone'' 58) = Some r
        \<and> filter (\<lambda>r. status r = ''available'' \<and> 58 \<le> capacity r) (get_available_resources ''drone'')
            = pre @ r # post
        \<and> (\<forall>x\<in>set pre. capacity x < capacity r)
        \<and> (\<forall>x\<in>set post. capacity x \<le> capacity r)"
    using select_optimal_resource_first_maximum
      [of 58 "''drone''" "init ''drone_operations''" "constant_world 0", THEN conjunct2, THEN conjunct1]
      1 by (rule mp)
  have 4: "fst (select_optimal_resource (init ''logistics'') (constant_world 0) ''vehicle'' 96) = None"
    using select_optimal_resource_first_maximum
      [of 96 "''vehicle''" "init ''logistics''" "constant_world 0", THEN conjunct1]
      2 by (rule mp)
  from 1 2 3 4 show ?thesis by (intro conjI)
qed

text \<open>
  C9, as the code has it. With 96 required the drone table still has its entry of capacity
  100, which is selected; \<open>None\<close> is returned exactly when more than 100 is required.
\<close>

theorem select_drone_none_iff:
  "fst (select_optimal_resource a w ''drone'' 96) =
     Some \<lparr>resource_id = ''RESOURCE-004'', capacity = 100, status = ''available'',
           location = ''Base-A''\<rparr>
   \<and> (fst (select_optimal_resource a w ''drone'' min_capacity) = None) = (100 < min_capacity)"
  by (simp add: select_drone)

theorem select_drone_96_counterexample:
  "fst (select_optimal_resource (init ''drone_operations'') (constant_world 0) ''drone'' 96) \<noteq> None"
  by (simp add: select_drone)

section \<open>Properties of the environment check\<close>

lemma check_conditions_kind:
  "kind (fst (check_conditions loc task_type w)) =
     (if task_type = ''delivery_route'' then ''traffic''
      else if task_type = ''production_job'' then ''facility''
      else ''weather'')"
  by (simp add: check_conditions_def Let_def split_def get_or_def)

lemma check_conditions_production_safe:
  "safe (fst (check_conditions loc ''production_job'' w))"
  by (simp add: check_conditions_def Let_def split_def get_or_def)

lemma check_conditions_draws:
  "snd (check_conditions loc task_type w) = w\<lparr>drawn := drawn w + 9\<rparr>"
  by (simp add: check_conditions_def Let_def split_def choice_def randint_def)

lemma check_environment_safety_production:
  "check_environment_safety loc ''production_job'' w =
     Inr ((True, [Lit ''Conditions favorable for task execution'']), w\<lparr>drawn := drawn w + 9\<rparr>)"
  using check_conditions_production_safe [of loc w] check_conditions_draws [of loc "''production_job''" w]
  by (simp add: check_environment_safety_def split_def)

text \<open>
  C4, as the code has it. Only \<open>production_job\<close> gets the facility reading; a tag that is
  neither \<open>delivery_route\<close> nor \<open>production_job\<close> gets the weather reading, since the
  lookup falls back on the entry of \<open>drone_mission\<close>.
\<close>

theorem check_conditions_category:
  "kind (fst (check_conditions loc task_type w)) =
     (if task_type = ''delivery_route'' then ''traffic''
      else if task_type = ''production_job'' then ''facility''
      else ''weather'')"
  by (rule check_conditions_kind)

theorem check_conditions_maintenance_counterexample:
  "kind (fst (check_conditions ''Hangar 3'' ''maintenance_check'' (constant_world 0))) = ''weather''
   \<and> kind (fst (check_conditions ''Hangar 3'' ''maintenance_check'' (constant_world 0))) \<noteq> ''facility''"
  by (simp add: check_conditions_kind)

section \<open>Properties of execution planning\<close>

lemma randint_world: "snd (randint lo hi w) = w\<lparr>drawn := drawn w + 1\<rparr>"
  by (simp add: randint_def)

lemma randint_range:
  assumes "lo \<le> hi"
  shows "lo \<le> fst (randint lo hi w)" and "fst (randint lo hi w) \<le> hi"
proof -
  let ?n = "nat (hi - lo + 1)"
  let ?k = "random_source w (drawn w) mod ?n"
  have "0 < ?n" using assms by simp
  then have "?k < ?n" by simp
  then have "int ?k < hi - lo + 1" using assms by linarith
  then show "fst (randint lo hi w) \<le> hi" by (simp add: randint_def)
  show "lo \<le> fst (randint lo hi w)" by (simp add: randint_def)
qed

lemma step_loop_world:
  "snd (step_loop indices made w) = w\<lparr>drawn := drawn w + length indices\<rparr>"
  by (induction indices arbitrary: made w) (simp_all add: split_def Let_def randint_world)

lemma step_loop_steps:
  "\<exists>new. fst (step_loop indices made w) = made @ new \<and> length new = length indices
     \<and> (\<forall>s\<in>set new. 5 \<le> estimated_time_min s \<and> estimated_time_min s \<le> 20)"
proof (induction indices arbitrary: made w)
  case Nil
  show ?case by simp
next
  case (Cons i rest)
  let ?t = "fst (randint 5 20 w)"
  let ?s = "\<lparr>step_index = int i + 1, action = [Lit ''Execute phase '', IntVal (int i + 1)],
      estimated_time_min = ?t\<rparr>"
  from Cons.IH [of "made @ [?s]" "snd (randint 5 20 w)"] obtain new where
    new: "fst (step_loop rest (made @ [?s]) (snd (randint 5 20 w))) = (made @ [?s]) @ new"
      "length new = length rest"
      "\<forall>s\<in>set new. 5 \<le> estimated_time_min s \<and> estimated_time_min s \<le> 20"
    by blast
  have t: "5 \<le> ?t" "?t \<le> 20" using randint_range [of 5 20 w] by simp_all
  have "fst (step_loop (i # rest) made w) = made @ (?s # new)"
    using new(1) by (simp add: split_def Let_def)
  moreover have "length (?s # new) = length (i # rest)" using new(2) by simp
  moreover have "\<forall>s\<in>set (?s # new). 5 \<le> estimated_time_min s \<and> estimated_time_min s \<le> 20"
    using new(3) t by simp
  ultimately show ?case by blast
qed

lemma plan_execution_path_world:
  "snd (plan_execution_path task w) =
     w\<lparr>drawn := drawn w + 1 + nat (fst (randint 3 7 w))\<rparr>"
  by (simp add: plan_execution_path_def Let_def split_def step_loop_world randint_world)

text \<open>
  C7. For every request and every random source, the number of steps of the plan is between
  3 and 7 and is the number of steps listed, every step lasts between 5 and 20 minutes, and
  the total duration is the sum of the durations of the steps listed.
\<close>

theorem plan_execution_path_bounds:
  "3 \<le> total_steps (fst (plan_execution_path task w))
   \<and> total_steps (fst (plan_execution_path task w)) \<le> 7
   \<and> int (length (steps (fst (plan_execution_path task w))))
       = total_steps (fst (plan_execution_path task w))
   \<and> (\<forall>s\<in>set (steps (fst (plan_execution_path task w))).
         5 \<le> estimated_time_min s \<and> estimated_time_min s \<le> 20)
   \<and> estimated_duration_min (fst (plan_execution_path task w))
       = sum_list (map estimated_time_min (steps (fst (plan_execution_path task w))))"
proof -
  let ?n = "fst (randint 3 7 w)"
  let ?w1 = "snd (randint 3 7 w)"
  let ?made = "fst (step_loop [0 ..< nat ?n] [] ?w1)"
  have n: "3 \<le> ?n" "?n \<le> 7" using randint_range [of 3 7 w] by simp_all
  obtain new where new: "?made = [] @ new" "length new = length [0 ..< nat ?n]"
    "\<forall>s\<in>set new. 5 \<le> estimated_time_min s \<and> estimated_time_min s \<le> 20"
    using step_loop_steps [of "[0 ..< nat ?n]" "[]" ?w1] by blast
  have p: "total_steps (fst (plan_execution_path task w)) = ?n"
    "steps (fst (plan_execution_path task w)) = ?made"
    "estimated_duration_min (fst (plan_execution_path task w))
      = sum_list (map estimated_time_min ?made)"
    by (simp_all add: plan_execution_path_def Let_def split_def)
  have len: "int (length ?made) = ?n" using new(1,2) n by simp
  show ?thesis unfolding p using n len new(1,3) by simp
qed

lemma plan_of_drone_task:
  "fst (plan_execution_path drone_task (constant_world 0)) =
     \<lparr>plan_start = ''Base-A'', plan_end = ''Solar Farm Alpha'', total_steps = 3,
      estimated_duration_min = 15,
      steps =
        [\<lparr>step_index = 1, action = [Lit ''Execute phase '', IntVal 1], estimated_time_min = 5\<rparr>,
         \<lparr>step_index = 2, action = [Lit ''Execute phase '', IntVal 2], estimated_time_min = 5\<rparr>,
         \<lparr>step_index = 3, action = [Lit ''Execute phase '', IntVal 3], estimated_time_min = 5\<rparr>],
      contingency_plan = ''Return to base if issues arise''\<rparr>"
  by (simp add: plan_execution_path_def Let_def split_def drone_task_def constant_world_def
      get_default_def randint_def upt_rec)

theorem plan_execution_path_bounds_witness:
  "\<lparr>step_index = 1, action = [Lit ''Execute phase '', IntVal 1], estimated_time_min = 5\<rparr>
     \<in> set (steps (fst (plan_execution_path drone_task (constant_world 0))))
   \<and> 3 \<le> total_steps (fst (plan_execution_path drone_task (constant_world 0)))
   \<and> total_steps (fst (plan_execution_path drone_task (constant_world 0))) \<le> 7
   \<and> int (length (steps (fst (plan_execution_path drone_task (constant_world 0)))))
       = total_steps (fst (plan_execution_path drone_task (constant_world 0)))
   \<and> 5 \<le> estimated_time_min
         \<lparr>step_index = 1, action = [Lit ''Execute phase '', IntVal 1], estimated_time_min = 5\<rparr>
   \<and> estimated_time_min
         \<lparr>step_index = 1, action = [Lit ''Execute phase '', IntVal 1], estimated_time_min = 5\<rparr>
       \<le> 20
   \<and> estimated_duration_min (fst (plan_execution_path drone_task (constant_world 0)))
       = sum_list (map estimated_time_min
           (steps (fst (plan_execution_path drone_task (constant_world 0)))))"
proof -
  let ?s = "\<lparr>step_index = 1, action = [Lit ''Execute phase '', IntVal 1],
      estimated_time_min = 5\<rparr>"
  have m: "?s \<in> set (steps (fst (plan_execution_path drone_task (constant_world 0))))"
    by (simp add: plan_of_drone_task)
  note inst = plan_execution_path_bounds [of drone_task "constant_world 0"]
  from inst m have "5 \<le> estimated_time_min ?s \<and> estimated_time_min ?s \<le> 20" by blast
  with inst m show ?thesis by blast
qed

section \<open>Properties of the evaluation\<close>

lemma subscript_wind_speed:
  "subscript [(''condition'', c), (''wind_speed'', v), (''visibility'', x)] ''wind_speed'' = Inr v"
  by (simp add: subscript_def)

lemma subscript_delay:
  "subscript [(''traffic_level'', c), (''estimated_delay_min'', v), (''road_status'', x)]
     ''estimated_delay_min'' = Inr v"
  by (simp add: subscript_def)

text \<open>An unsafe reading is always reported with a reason: no subscription fails.\<close>

lemma unsafe_reported:
  assumes "\<not> safe (fst (check_conditions loc task_type w))"
  shows "\<exists>why. check_environment_safety loc task_type w =
      Inr ((False, why), w\<lparr>drawn := drawn w + 9\<rparr>)"
proof -
  have w9: "snd (check_conditions loc task_type w) = w\<lparr>drawn := drawn w + 9\<rparr>"
    by (rule check_conditions_draws)
  consider "task_type = ''delivery_route''" | "task_type = ''production_job''"
    | "task_type \<noteq> ''delivery_route''" "task_type \<noteq> ''production_job''" by blast
  then show ?thesis
  proof cases
    case 1
    then have "\<exists>c v x. details (fst (check_conditions loc task_type w)) =
        [(''traffic_level'', c), (''estimated_delay_min'', v), (''road_status'', x)]"
      by (simp add: check_conditions_def Let_def split_def get_or_def)
    then show ?thesis
      using assms w9 1 check_conditions_kind [of loc task_type w]
      by (auto simp add: check_environment_safety_def split_def subscript_delay)
  next
    case 2
    with assms show ?thesis using check_conditions_production_safe [of loc w] by simp
  next
    case 3
    then have "\<exists>c v x. details (fst (check_conditions loc task_type w)) =
        [(''condition'', c), (''wind_speed'', v), (''visibility'', x)]"
      by (simp add: check_conditions_def Let_def split_def get_or_def)
    then show ?thesis
      using assms w9 3 check_conditions_kind [of loc task_type w]
      by (auto simp add: check_environment_safety_def split_def subscript_wind_speed)
  qed
qed

lemma log_decision_eq:
  "log_decision a w s d r =
     (a\<lparr>decision_log := decision_log a @
        [\<lparr>timestamp = clock w (clock_reads w), step = s, decision = d, reasoning = r\<rparr>]\<rparr>,
      w\<lparr>clock_reads := clock_reads w + 1\<rparr>)"
  by (simp add: log_decision_def)

lemma rejected_when_unsafe:
  assumes "check_environment_safety (get_default (req_location task) ''Unknown'')
      (get_default (req_task_type task) ''drone_mission'') w = Inr ((False, why), w1)"
  shows "make_autonomous_decision a w task =
      Inr (Rejected why
             (decision_log a @
                [\<lparr>timestamp = clock w1 (clock_reads w1), step = ''Environment Analysis'',
                  decision = [Lit ''TASK REJECTED''], reasoning = why\<rparr>]),
           a\<lparr>decision_log := decision_log a @
                [\<lparr>timestamp = clock w1 (clock_reads w1), step = ''Environment Analysis'',
                  decision = [Lit ''TASK REJECTED''], reasoning = why\<rparr>]\<rparr>,
           w1\<lparr>clock_reads := clock_reads w1 + 1\<rparr>)"
  unfolding make_autonomous_decision_def Let_def assms
  by (simp add: log_decision_eq)

text \<open>
  C5, as the code has it. When the environment reading is unsafe the evaluation returns a
  rejection carrying the reason of the check, and appends exactly one entry, of step
  \<open>Environment Analysis\<close>, to the log the agent already holds; the returned log has
  exactly that one entry when the agent is newly constructed. The world it leaves has the
  nine draws of the environment check and one reading of the clock: no requirement,
  resource or plan was computed or logged.
\<close>

theorem unsafe_environment_rejects_with_one_entry:
  "\<not> safe (fst (check_conditions (get_default (req_location task) ''Unknown'')
            (get_default (req_task_type task) ''drone_mission'') w))
   \<longrightarrow> (\<exists>why entry.
          entry = \<lparr>timestamp = clock w (clock_reads w), step = ''Environment Analysis'',
                   decision = [Lit ''TASK REJECTED''], reasoning = why\<rparr>
        \<and> make_autonomous_decision a w task =
            Inr (Rejected why (decision_log a @ [entry]),
                 a\<lparr>decision_log := decision_log a @ [entry]\<rparr>,
                 w\<lparr>drawn := drawn w + 9, clock_reads := clock_reads w + 1\<rparr>)
        \<and> make_autonomous_decision (init ind) w task =
            Inr (Rejected why [entry],
                 \<lparr>industry = ind, decision_log = [entry]\<rparr>,
                 w\<lparr>drawn := drawn w + 9, clock_reads := clock_reads w + 1\<rparr>))"
proof
  assume "\<not> safe (fst (check_conditions (get_default (req_location task) ''Unknown'')
            (get_default (req_task_type task) ''drone_mission'') w))"
  then obtain why where why:
    "check_environment_safety (get_default (req_location task) ''Unknown'')
      (get_default (req_task_type task) ''drone_mission'') w =
      Inr ((False, why), w\<lparr>drawn := drawn w + 9\<rparr>)"
    using unsafe_reported by blast
  define entry where "entry = \<lparr>timestamp = clock w (clock_reads w),
      step = ''Environment Analysis'', decision = [Lit ''TASK REJECTED''], reasoning = why\<rparr>"
  have 1: "make_autonomous_decision a w task =
      Inr (Rejected why (decision_log a @ [entry]),
           a\<lparr>decision_log := decision_log a @ [entry]\<rparr>,
           w\<lparr>drawn := drawn w + 9, clock_reads := clock_reads w + 1\<rparr>)" for a
    using rejected_when_unsafe [OF why, of a] by (simp add: entry_def)
  have 2: "make_autonomous_decision (init ind) w task =
      Inr (Rejected why [entry], \<lparr>industry = ind, decision_log = [entry]\<rparr>,
           w\<lparr>drawn := drawn w + 9, clock_reads := clock_reads w + 1\<rparr>)"
    using 1 [of "init ind"] by (simp add: init_def)
  show "\<exists>why entry.
          entry = \<lparr>timestamp = clock w (clock_reads w), step = ''Environment Analysis'',
                   decision = [Lit ''TASK REJECTED''], reasoning = why\<rparr>
        \<and> make_autonomous_decision a w task =
            Inr (Rejected why (decision_log a @ [entry]),
                 a\<lparr>decision_log := decision_log a @ [entry]\<rparr>,
                 w\<lparr>drawn := drawn w + 9, clock_reads := clock_reads w + 1\<rparr>)
        \<and> make_autonomous_decision (init ind) w task =
            Inr (Rejected why [entry],
                 \<lparr>industry = ind, decision_log = [entry]\<rparr>,
                 w\<lparr>drawn := drawn w + 9, clock_reads := clock_reads w + 1\<rparr>)"
    using entry_def 1 [of a] 2 by (intro exI [of _ why] exI [of _ entry]) simp
qed

lemma drone_unsafe_in_world_3:
  "\<not> safe (fst (check_conditions (get_default (req_location drone_task) ''Unknown'')
            (get_default (req_task_type drone_task) ''drone_mission'') (constant_world 3)))"
  by (simp add: check_conditions_def Let_def split_def get_or_def choice_def randint_def
      constant_world_def drone_task_def get_default_def)

theorem unsafe_environment_rejects_with_one_entry_witness:
  "\<not> safe (fst (check_conditions (get_default (req_location drone_task) ''Unknown'')
            (get_default (req_task_type drone_task) ''drone_mission'') (constant_world 3)))
   \<and> (\<exists>why entry.
          entry = \<lparr>timestamp = clock (constant_world 3) (clock_reads (constant_world 3)),
                   step = ''Environment Analysis'',
                   decision = [Lit ''TASK REJECTED''], reasoning = why\<rparr>
        \<and> make_autonomous_decision (init ''drone_operations'') (constant_world 3) drone_task =
            Inr (Rejected why (decision_log (init ''drone_operations'') @ [entry]),
                 (init ''drone_operations'')
                   \<lparr>decision_log := decision_log (init ''drone_operations'') @ [entry]\<rparr>,
                 (constant_world 3)\<lparr>drawn := drawn (constant_world 3) + 9,
                   clock_reads := clock_reads (constant_world 3) + 1\<rparr>)
        \<and> make_autonomous_decision (init ''drone_operations'') (constant_world 3) drone_task =
            Inr (Rejected why [entry],
                 \<lparr>industry = ''drone_operations'', decision_log = [entry]\<rparr>,
                 (constant_world 3)\<lparr>drawn := drawn (constant_world 3) + 9,
                   clock_reads := clock_reads (constant_world 3) + 1\<rparr>))"
  using drone_unsafe_in_world_3
    unsafe_environment_rejects_with_one_entry
      [of drone_task "constant_world 3" "init ''drone_operations''" "''drone_operations''"]
  by (intro conjI) (assumption, erule (1) mp)

lemma check_environment_safety_drone_3:
  "check_environment_safety ''Solar Farm Alpha'' ''drone_mission'' (constant_world 3) =
     Inr ((False, [Lit ''Unsafe weather: Wind '', DetailVal (DInt 8), Lit '' km/h'']),
          (constant_world 3)\<lparr>drawn := 9\<rparr>)"
  by (simp add: check_environment_safety_def check_conditions_def Let_def split_def get_or_def
      choice_def randint_def constant_world_def subscript_def)

theorem rejection_on_used_agent_counterexample:
  "make_autonomous_decision \<lparr>industry = ''manufacturing'', decision_log = production_entries\<rparr>
       (constant_world 3) drone_task =
     Inr (Rejected [Lit ''Unsafe weather: Wind '', DetailVal (DInt 8), Lit '' km/h'']
            (production_entries @
               [\<lparr>timestamp = ''2025-01-01 00:00:00'', step = ''Environment Analysis'',
                 decision = [Lit ''TASK REJECTED''],
                 reasoning = [Lit ''Unsafe weather: Wind '', DetailVal (DInt 8), Lit '' km/h'']\<rparr>]),
          \<lparr>industry = ''manufacturing'',
           decision_log = production_entries @
               [\<lparr>timestamp = ''2025-01-01 00:00:00'', step = ''Environment Analysis'',
                 decision = [Lit ''TASK REJECTED''],
                 reasoning = [Lit ''Unsafe weather: Wind '', DetailVal (DInt 8), Lit '' km/h'']\<rparr>]\<rparr>,
          (constant_world 3)\<lparr>drawn := 9, clock_reads := 1\<rparr>)
   \<and> length (production_entries @
               [\<lparr>timestamp = ''2025-01-01 00:00:00'', step = ''Environment Analysis'',
                 decision = [Lit ''TASK REJECTED''],
                 reasoning = [Lit ''Unsafe weather: Wind '', DetailVal (DInt 8), Lit '' km/h'']\<rparr>])
       = 5"
proof -
  have env: "check_environment_safety (get_default (req_location drone_task) ''Unknown'')
      (get_default (req_task_type drone_task) ''drone_mission'') (constant_world 3) =
      Inr ((False, [Lit ''Unsafe weather: Wind '', DetailVal (DInt 8), Lit '' km/h'']),
           (constant_world 3)\<lparr>drawn := 9\<rparr>)"
    by (simp add: drone_task_def get_default_def check_environment_safety_drone_3)
  have len: "length production_entries = 4" by (simp add: production_entries_def)
  from rejected_when_unsafe [OF env,
      of "\<lparr>industry = ''manufacturing'', decision_log = production_entries\<rparr>"] len
  show ?thesis by (simp add: constant_world_def)
qed

lemma select_optimal_resource_agent:
  "fst (snd (select_optimal_resource a w resource_type min_capacity)) =
     a\<lparr>decision_log := decision_log a @ [selection_entry a w resource_type min_capacity]\<rparr>"
  unfolding selection_entry_def
  by (simp add: select_optimal_resource_def Let_def log_decision_eq split: list.split)

lemma select_optimal_resource_world:
  "snd (snd (select_optimal_resource a w resource_type min_capacity)) =
     w\<lparr>clock_reads := clock_reads w + 1\<rparr>"
  by (simp add: select_optimal_resource_def Let_def log_decision_eq split: list.split)

lemma selection_entry_step:
  "step (selection_entry a w resource_type min_capacity) = ''Resource Selection''"
  unfolding selection_entry_def
  by (simp add: select_optimal_resource_def Let_def log_decision_eq split: list.split)

text \<open>
  After a safe reading the log is extended by the approval of the conditions, followed by
  the entries of the later stages; the log returned is the log of the agent.
\<close>

lemma log_after_safe:
  assumes env: "check_environment_safety (get_default (req_location task) ''Unknown'')
      (get_default (req_task_type task) ''drone_mission'') w = Inr ((True, why), w1)"
    and run: "make_autonomous_decision a w task = Inr (out, a', w')"
  shows "\<exists>rest. returned_log out =
      decision_log a @
        \<lparr>timestamp = clock w1 (clock_reads w1), step = ''Environment Analysis'',
         decision = [Lit ''CONDITIONS APPROVED''], reasoning = why\<rparr> # rest
      \<and> decision_log a' = returned_log out"
  using run unfolding make_autonomous_decision_def Let_def env
  by (auto simp add: log_decision_eq split_def select_optimal_resource_agent
      split: sum.splits option.splits)

lemma to_float_45: "to_float (PyInt 45) = Inr (Finite 45)"
  unfolding to_float.simps
  by (subst round_double_binade [where a = 5 and b = 0]) (simp_all add: eval_round)

lemma base_45: "mul_float (PyInt 45) (decimal 8 1) = Inr (Finite 36)"
  unfolding mul_float_def to_float_45 decimal_8 sum.case fmul.simps
  by (subst round_double_binade [where a = 5 and b = 0]) (simp_all add: eval_round)

lemma low_36: "fmul (Finite 36) (decimal 10 1) = Finite 36"
  unfolding decimal_10 fmul.simps
  by (subst round_double_binade [where a = 5 and b = 0]) (simp_all add: eval_round)

lemma total_36: "fmul (Finite 36) (decimal 12 1) = Finite (6079859496950169 / 140737488355328)"
  unfolding decimal_12 fmul.simps
  by (subst round_double_binade [where a = 5 and b = 0]) (simp_all add: eval_round)

lemma calculate_45_low:
  "calculate_resource_requirement (PyInt 0) ''low'' (PyInt 45) = Inr 43"
proof -
  have "calculate_resource_requirement (PyInt 0) ''low'' (PyInt 45) =
      py_int (fmul (fmul (Finite 36) (decimal 10 1)) (decimal 12 1))"
    by (simp add: calculate_as_spec spec_base_def spec_multiplier_def base_45)
  also have "\<dots> = py_int (Finite (6079859496950169 / 140737488355328))"
    by (simp only: low_36 total_36)
  also have "\<dots> = Inr 43"
    by (simp add: py_trunc_def floor_rat_numeral)
  finally show ?thesis .
qed

lemma select_machine_43:
  "fst (select_optimal_resource a w ''machine'' 43) =
     Some \<lparr>resource_id = ''UNIT-002'', capacity = 95, status = ''available'', location = ''Station-B''\<rparr>"
  by (simp add: select_optimal_resource_result get_available_resources_def)

lemma selection_entry_machine_43:
  "selection_entry a w ''machine'' 43 =
     \<lparr>timestamp = clock w (clock_reads w), step = ''Resource Selection'',
      decision = [Lit ''Selected '', Lit ''UNIT-002''],
      reasoning = [Lit ''Capacity: '', IntVal 95, Lit ''%, Status: '', Lit ''available'']\<rparr>"
  unfolding selection_entry_def
  by (simp add: select_optimal_resource_def Let_def log_decision_eq get_available_resources_def)

lemma selection_entry_drone_58:
  "selection_entry a w ''drone'' 58 =
     \<lparr>timestamp = clock w (clock_reads w), step = ''Resource Selection'',
      decision = [Lit ''Selected '', Lit ''RESOURCE-004''],
      reasoning = [Lit ''Capacity: '', IntVal 100, Lit ''%, Status: '', Lit ''available'']\<rparr>"
  unfolding selection_entry_def
  by (simp add: select_optimal_resource_def Let_def log_decision_eq get_available_resources_def)


lemma check_environment_safety_drone_0:
  assumes "random_source w = (\<lambda>_. 0)"
  shows "check_environment_safety loc ''drone_mission'' w =
     Inr ((True, [Lit ''Conditions favorable for task execution'']), w\<lparr>drawn := drawn w + 9\<rparr>)"
proof -
  have "safe (fst (check_conditions loc ''drone_mission'' w))"
    using assms by (simp add: check_conditions_def Let_def split_def get_or_def choice_def)
  then show ?thesis
    using check_conditions_draws [of loc "''drone_mission''" w]
    by (simp add: check_environment_safety_def split_def)
qed

text \<open>The two sample requests, run in a world of constant draws 0 and a standing clock.\<close>

lemma production_run:
  assumes "random_source w = (\<lambda>_. 0)" "clock w = (\<lambda>_. ''2025-01-01 00:00:00'')"
  shows "\<exists>out w'. make_autonomous_decision a w production_task =
        Inr (out, a\<lparr>decision_log := decision_log a @ production_entries\<rparr>, w')
      \<and> returned_log out = decision_log a @ production_entries
      \<and> random_source w' = random_source w \<and> clock w' = clock w"
  unfolding make_autonomous_decision_def Let_def
  by (simp add: production_task_def get_default_def check_environment_safety_production
      calculate_45_low log_decision_eq split_def select_optimal_resource_agent
      select_optimal_resource_world select_machine_43 selection_entry_machine_43
      plan_execution_path_world production_entries_def assms)

lemma drone_run:
  assumes "random_source w = (\<lambda>_. 0)" "clock w = (\<lambda>_. ''2025-01-01 00:00:00'')"
  shows "\<exists>out w'. make_autonomous_decision a w drone_task =
        Inr (out, a\<lparr>decision_log := decision_log a @ drone_entries\<rparr>, w')
      \<and> returned_log out = decision_log a @ drone_entries
      \<and> random_source w' = random_source w \<and> clock w' = clock w"
  unfolding make_autonomous_decision_def Let_def
  by (simp add: drone_task_def get_default_def check_environment_safety_drone_0
      calculate_25_medium log_decision_eq split_def select_optimal_resource_agent
      select_optimal_resource_world select_drone selection_entry_drone_58
      plan_execution_path_world drone_entries_def assms)

lemma two_runs:
  "logs_of_two_runs (init ''manufacturing'') (constant_world 0) production_task drone_task =
     Inr (production_entries, production_entries @ drone_entries)"
proof -
  have w: "random_source (constant_world 0) = (\<lambda>_. 0)"
    "clock (constant_world 0) = (\<lambda>_. ''2025-01-01 00:00:00'')"
    by (simp_all add: constant_world_def)
  obtain o1 w1 where 1: "make_autonomous_decision (init ''manufacturing'') (constant_world 0)
        production_task =
      Inr (o1, (init ''manufacturing'')\<lparr>decision_log :=
        decision_log (init ''manufacturing'') @ production_entries\<rparr>, w1)"
    "returned_log o1 = decision_log (init ''manufacturing'') @ production_entries"
    "random_source w1 = random_source (constant_world 0)" "clock w1 = clock (constant_world 0)"
    using production_run [OF w] by blast
  let ?a1 = "(init ''manufacturing'')\<lparr>decision_log :=
        decision_log (init ''manufacturing'') @ production_entries\<rparr>"
  obtain o2 w2 where 2: "make_autonomous_decision ?a1 w1 drone_task =
      Inr (o2, ?a1\<lparr>decision_log := decision_log ?a1 @ drone_entries\<rparr>, w2)"
    "returned_log o2 = decision_log ?a1 @ drone_entries"
    using drone_run [of w1 ?a1] 1(3,4) w by auto
  have "logs_of_two_runs (init ''manufacturing'') (constant_world 0) production_task drone_task =
      Inr (returned_log o1, returned_log o2)"
    by (simp only: logs_of_two_runs_def 1(1) 2(1) sum.case prod.case)
  then show ?thesis
    by (simp add: 1(2) 2(2) init_def)
qed

lemma log_grows:
  assumes run: "make_autonomous_decision a w task = Inr (out, a', w')"
  shows "decision_log a' = returned_log out
    \<and> (\<exists>first rest. returned_log out = decision_log a @ first # rest
          \<and> step first = ''Environment Analysis'')"
proof (cases "check_environment_safety (get_default (req_location task) ''Unknown'')
      (get_default (req_task_type task) ''drone_mission'') w")
  case (Inl e)
  with run show ?thesis by (simp add: make_autonomous_decision_def Let_def)
next
  case (Inr result)
  obtain is_safe why w1 where result: "result = ((is_safe, why), w1)"
    by (cases result) auto
  show ?thesis
  proof (cases is_safe)
    case True
    with Inr result have "check_environment_safety (get_default (req_location task) ''Unknown'')
        (get_default (req_task_type task) ''drone_mission'') w = Inr ((True, why), w1)"
      by simp
    from log_after_safe [OF this run] show ?thesis by auto
  next
    case False
    with Inr result have "check_environment_safety (get_default (req_location task) ''Unknown'')
        (get_default (req_task_type task) ''drone_mission'') w = Inr ((False, why), w1)"
      by simp
    from rejected_when_unsafe [OF this, of a] run show ?thesis by auto
  qed
qed

text \<open>
  C8, as the code has it. The log is a field of the agent, assigned only by the constructor:
  a new agent has an empty log, every evaluation appends to the log it finds and returns
  the whole of it. Of two successive evaluations on one agent, the second returns the log
  returned by the first, followed by its own entries.
\<close>

theorem decision_log_accumulates:
  "decision_log (init ind) = []
   \<and> (make_autonomous_decision a w task = Inr (out, a', w')
      \<longrightarrow> decision_log a' = returned_log out
        \<and> (\<exists>first rest. returned_log out = decision_log a @ first # rest))
   \<and> (logs_of_two_runs a w first_task second_task = Inr (first_log, second_log)
      \<longrightarrow> (\<exists>new1 new2. first_log = decision_log a @ new1 \<and> second_log = first_log @ new2
            \<and> new1 \<noteq> [] \<and> new2 \<noteq> []))"
proof (intro conjI impI)
  show "decision_log (init ind) = []" by (simp add: init_def)
next
  assume "make_autonomous_decision a w task = Inr (out, a', w')"
  from log_grows [OF this] show "decision_log a' = returned_log out"
    and "\<exists>first rest. returned_log out = decision_log a @ first # rest"
    by blast+
next
  assume two: "logs_of_two_runs a w first_task second_task = Inr (first_log, second_log)"
  then obtain o1 a1 w1 where 1: "make_autonomous_decision a w first_task = Inr (o1, a1, w1)"
    by (auto simp add: logs_of_two_runs_def split: sum.splits)
  with two obtain o2 a2 w2 where 2: "make_autonomous_decision a1 w1 second_task = Inr (o2, a2, w2)"
    by (auto simp add: logs_of_two_runs_def split: sum.splits)
  from two 1 2 have logs: "first_log = returned_log o1" "second_log = returned_log o2"
    by (simp_all add: logs_of_two_runs_def)
  from log_grows [OF 1] obtain f1 r1 where
    g1: "decision_log a1 = returned_log o1" "returned_log o1 = decision_log a @ f1 # r1"
    by blast
  from log_grows [OF 2] obtain f2 r2 where
    g2: "returned_log o2 = decision_log a1 @ f2 # r2"
    by blast
  have "first_log = decision_log a @ (f1 # r1)" using logs g1 by simp
  moreover have "second_log = first_log @ (f2 # r2)" using logs g1 g2 by simp
  ultimately show "\<exists>new1 new2. first_log = decision_log a @ new1 \<and> second_log = first_log @ new2
            \<and> new1 \<noteq> [] \<and> new2 \<noteq> []"
    by blast
qed

theorem decision_log_accumulates_witness:
  "(\<exists>out a' w'.
      make_autonomous_decision (init ''manufacturing'') (constant_world 0) production_task =
        Inr (out, a', w')
    \<and> decision_log a' = returned_log out
    \<and> (\<exists>first rest. returned_log out = decision_log (init ''manufacturing'') @ first # rest))
   \<and> logs_of_two_runs (init ''manufacturing'') (constant_world 0) production_task drone_task =
       Inr (production_entries, production_entries @ drone_entries)
   \<and> (\<exists>new1 new2. production_entries = decision_log (init ''manufacturing'') @ new1
        \<and> production_entries @ drone_entries = production_entries @ new2
        \<and> new1 \<noteq> [] \<and> new2 \<noteq> [])"
proof -
  have "random_source (constant_world 0) = (\<lambda>_. 0)"
    "clock (constant_world 0) = (\<lambda>_. ''2025-01-01 00:00:00'')"
    by (simp_all add: constant_world_def)
  from production_run [OF this, of "init ''manufacturing''"] obtain out a' w' where
    run: "make_autonomous_decision (init ''manufacturing'') (constant_world 0) production_task =
      Inr (out, a', w')"
    by blast
  note inst = decision_log_accumulates [of "''manufacturing''" "init ''manufacturing''"
      "constant_world 0" production_task out a' w' production_task drone_task
      production_entries "production_entries @ drone_entries"]
  from inst run have 1: "decision_log a' = returned_log out
      \<and> (\<exists>first rest. returned_log out = decision_log (init ''manufacturing'') @ first # rest)"
    by blast
  from inst two_runs have 2: "\<exists>new1 new2.
      production_entries = decision_log (init ''manufacturing'') @ new1
        \<and> production_entries @ drone_entries = production_entries @ new2
        \<and> new1 \<noteq> [] \<and> new2 \<noteq> []"
    by blast
  from run 1 2 two_runs show ?thesis by blast
qed

theorem second_log_keeps_first_run_counterexample:
  "logs_of_two_runs (init ''manufacturing'') (constant_world 0) production_task drone_task =
     Inr (production_entries, production_entries @ drone_entries)
   \<and> length production_entries = 4
   \<and> length (production_entries @ drone_entries) = 8"
  by (simp add: two_runs) (simp add: production_entries_def drone_entries_def)

text \<open>
  C10. For \<open>production_job\<close> the reading is safe whatever the random source yields, the
  check reports the conditions favourable, and whenever the evaluation of a production
  request returns, the entry it added first to the log is the approval of the conditions.
\<close>

theorem production_job_always_safe:
  "safe (fst (check_conditions loc ''production_job'' w))
   \<and> check_environment_safety loc ''production_job'' w =
       Inr ((True, [Lit ''Conditions favorable for task execution'']), w\<lparr>drawn := drawn w + 9\<rparr>)
   \<and> (req_task_type task = Some ''production_job''
        \<and> make_autonomous_decision a w task = Inr (out, a', w')
      \<longrightarrow> (\<exists>rest. returned_log out =
            decision_log a @
              \<lparr>timestamp = clock w (clock_reads w), step = ''Environment Analysis'',
               decision = [Lit ''CONDITIONS APPROVED''],
               reasoning = [Lit ''Conditions favorable for task execution'']\<rparr> # rest))"
proof (intro conjI impI)
  show "safe (fst (check_conditions loc ''production_job'' w))"
    by (rule check_conditions_production_safe)
  show "check_environment_safety loc ''production_job'' w =
       Inr ((True, [Lit ''Conditions favorable for task execution'']), w\<lparr>drawn := drawn w + 9\<rparr>)"
    by (rule check_environment_safety_production)
  assume a: "req_task_type task = Some ''production_job''
        \<and> make_autonomous_decision a w task = Inr (out, a', w')"
  then have env: "check_environment_safety (get_default (req_location task) ''Unknown'')
      (get_default (req_task_type task) ''drone_mission'') w =
      Inr ((True, [Lit ''Conditions favorable for task execution'']), w\<lparr>drawn := drawn w + 9\<rparr>)"
    by (simp add: get_default_def check_environment_safety_production)
  from log_after_safe [OF env] a
  show "\<exists>rest. returned_log out =
            decision_log a @
              \<lparr>timestamp = clock w (clock_reads w), step = ''Environment Analysis'',
               decision = [Lit ''CONDITIONS APPROVED''],
               reasoning = [Lit ''Conditions favorable for task execution'']\<rparr> # rest"
    by auto
qed

theorem production_job_always_safe_witness:
  "req_task_type production_task = Some ''production_job''
   \<and> (\<exists>out a' w'.
        make_autonomous_decision (init ''manufacturing'') (constant_world 0) production_task =
          Inr (out, a', w')
      \<and> (\<exists>rest. returned_log out =
            decision_log (init ''manufacturing'') @
              \<lparr>timestamp = clock (constant_world 0) (clock_reads (constant_world 0)),
               step = ''Environment Analysis'',
               decision = [Lit ''CONDITIONS APPROVED''],
               reasoning = [Lit ''Conditions favorable for task execution'']\<rparr> # rest))"
proof -
  have t: "req_task_type production_task = Some ''production_job''"
    by (simp add: production_task_def)
  have "random_source (constant_world 0) = (\<lambda>_. 0)"
    "clock (constant_world 0) = (\<lambda>_. ''2025-01-01 00:00:00'')"
    by (simp_all add: constant_world_def)
  from production_run [OF this, of "init ''manufacturing''"] obtain out a' w' where
    run: "make_autonomous_decision (init ''manufacturing'') (constant_world 0) production_task =
      Inr (out, a', w')"
    by blast
  from production_job_always_safe
    [of "''Factory Floor A''" "constant_world 0" production_task "init ''manufacturing''" out a' w']
    t run
  show ?thesis by blast
qed

section \<open>Properties of the form variant\<close>

lemma first_word_medium: "first_word ''Medium - Standard operation'' = Inr ''Medium''"
  by (simp add: first_word_def whitespace_def)

lemma ui_complexity_factor_medium:
  "ui_complexity_factor ''Medium - Standard operation'' = Inr (decimal 13 1)"
  by (simp add: ui_complexity_factor_def first_word_medium)

lemma ui_total_25_medium:
  "ui_total 25 ''Medium - Standard operation'' = Inr (Finite (195 / 4))"
  by (simp add: ui_total_def ui_complexity_factor_medium base_25 medium_25)

text \<open>
  C3 at distance 25 and the label \<open>Medium - Standard operation\<close>. The form's total is
  25 times 1.5 times 1.3, that is 48.75, shown as 49; the factor 1.2 is not applied. The
  console variant multiplies this product by 1.2 and returns 58.
\<close>

theorem ui_total_without_safety_margin:
  "ui_total 25 ''Medium - Standard operation'' = Inr (Finite (195 / 4))
   \<and> ui_total_load 25 ''Medium - Standard operation'' = Inr 49
   \<and> fmul (Finite (195 / 4)) (decimal 12 1) = Finite (117 / 2)
   \<and> calculate_resource_requirement (PyInt 25) ''medium'' (PyInt 0) = Inr 58"
proof -
  have "ui_total_load 25 ''Medium - Standard operation'' = Inr 49"
    by (simp add: ui_total_load_def ui_total_25_medium round_half_even_def Let_def
        floor_rat_numeral)
  with ui_total_25_medium total_25 calculate_25_medium show ?thesis by simp
qed

end
